theory Spec2Isabelle
  imports Main "HOL-Library.Word"
begin

unbundle bit_operations_syntax

section \<open>OHCI host controller driver core (uspace/drv/bus/usb/ohci/hc.c)\<close>

text \<open>
  A shallow embedding of the routines of \<^verbatim>\<open>hc.c\<close>: \<^verbatim>\<open>hc_register_hub\<close>,
  \<^verbatim>\<open>hc_add_endpoint\<close>, \<^verbatim>\<open>hc_remove_endpoint\<close>, \<^verbatim>\<open>hc_schedule\<close>, \<^verbatim>\<open>hc_interrupt\<close>,
  \<^verbatim>\<open>hc_gain_control\<close> and \<^verbatim>\<open>hc_start\<close>.
  The driver instance \<^verbatim>\<open>hc_t\<close> is a record that the routines take and return; the
  \<^verbatim>\<open>assert(instance)\<close> at the head of each routine says that the pointer is not null, which
  a record always satisfies. The memory-mapped register window is a function from register
  names to 32-bit words. Everything the routines do that an observer of the bus or of the
  collaborators can see (register writes, list mutations, guard operations, callbacks,
  sleeps) is appended, in program order, to the \<open>trace\<close> field, so that ordering properties
  can be stated.
\<close>

subsection \<open>Register map and bit constants\<close>

type_synonym u32 = "32 word"

text \<open>The registers of \<^verbatim>\<open>ohci_regs_t\<close> that \<^verbatim>\<open>hc.c\<close> touches, and the legacy emulation
  register found at \<^verbatim>\<open>LEGACY_REGS_OFFSET\<close> behind the register block.\<close>

datatype reg =
    REVISION | CONTROL | COMMAND_STATUS | INTERRUPT_STATUS | INTERRUPT_ENABLE
  | HCCA | PERIODIC_CURRENT | CONTROL_HEAD | CONTROL_CURRENT | BULK_HEAD | BULK_CURRENT
  | FM_INTERVAL | PERIODIC_START | LEGACY_EMULATION

text \<open>
  Modelled from the spec: the header \<^verbatim>\<open>ohci_regs.h\<close> that defines the bit constants and the
  \<^verbatim>\<open>C_HCFS_GET\<close>/\<^verbatim>\<open>C_HCFS_SET\<close> accessors is not among the sources. The names are those
  \<^verbatim>\<open>hc.c\<close> uses; the grouping (four list-enable bits, a 2-bit functional-state field with
  RESET = 0, RESUME, OPERATIONAL, SUSPEND, the interrupt-routing bit, the command/status
  bits HCR, CLF, BLF, OCR, the interrupt bits SO, WDH, SF, UE, RHSC, MI) is the one of the
  specification, and the bit positions are those of the OHCI register layout.
\<close>

definition C_PLE :: u32 where "C_PLE = push_bit 2 1"
definition C_IE :: u32 where "C_IE = push_bit 3 1"
definition C_CLE :: u32 where "C_CLE = push_bit 4 1"
definition C_BLE :: u32 where "C_BLE = push_bit 5 1"
definition C_IR :: u32 where "C_IR = push_bit 8 1"

definition C_HCFS_MASK :: u32 where "C_HCFS_MASK = 3"
definition C_HCFS_SHIFT :: nat where "C_HCFS_SHIFT = 6"
definition C_HCFS_RESET :: u32 where "C_HCFS_RESET = 0"
definition C_HCFS_RESUME :: u32 where "C_HCFS_RESUME = 1"
definition C_HCFS_OPERATIONAL :: u32 where "C_HCFS_OPERATIONAL = 2"
definition C_HCFS_SUSPEND :: u32 where "C_HCFS_SUSPEND = 3"

definition CS_HCR :: u32 where "CS_HCR = push_bit 0 1"
definition CS_CLF :: u32 where "CS_CLF = push_bit 1 1"
definition CS_BLF :: u32 where "CS_BLF = push_bit 2 1"
definition CS_OCR :: u32 where "CS_OCR = push_bit 3 1"

definition I_SO :: u32 where "I_SO = push_bit 0 1"
definition I_WDH :: u32 where "I_WDH = push_bit 1 1"
definition I_SF :: u32 where "I_SF = push_bit 2 1"
definition I_UE :: u32 where "I_UE = push_bit 4 1"
definition I_RHSC :: u32 where "I_RHSC = push_bit 6 1"
definition I_MI :: u32 where "I_MI = push_bit 31 1"

definition R_LEGACY_FLAG :: u32 where "R_LEGACY_FLAG = push_bit 8 1"

definition FMI_FI_MASK :: u32 where "FMI_FI_MASK = 0x3fff"
definition FMI_FI_SHIFT :: nat where "FMI_FI_SHIFT = 0"

text \<open>\<^verbatim>\<open>#define OHCI_USED_INTERRUPTS (I_SO | I_WDH | I_UE | I_RHSC)\<close>\<close>

definition OHCI_USED_INTERRUPTS :: u32 where
  "OHCI_USED_INTERRUPTS = (I_SO OR I_WDH OR I_UE OR I_RHSC)"

text \<open>Modelled from the spec: the return codes of \<^verbatim>\<open>errno.h\<close>, which is not among the
  sources. \<open>EOK\<close> is 0, as the tests \<^verbatim>\<open>ret != EOK\<close> next to \<^verbatim>\<open>hub_address <= 0\<close> require
  of it and the error codes; of the error codes only their difference from \<open>EOK\<close> is
  used.\<close>

definition EOK :: int where "EOK = 0"
definition ENOENT :: int where "ENOENT = - 1"
definition ENOMEM :: int where "ENOMEM = - 2"

subsection \<open>USB types, endpoints, batches\<close>

datatype usb_transfer_type_t =
    USB_TRANSFER_CONTROL | USB_TRANSFER_ISOCHRONOUS | USB_TRANSFER_BULK | USB_TRANSFER_INTERRUPT

datatype usb_direction_t = USB_DIRECTION_IN | USB_DIRECTION_OUT | USB_DIRECTION_BOTH

datatype usb_speed_t = USB_SPEED_LOW | USB_SPEED_FULL | USB_SPEED_HIGH

text \<open>The logical endpoint record \<^verbatim>\<open>endpoint_t\<close>. \<open>ep_ptr\<close> is the address of the allocated
  record, \<open>hc_data\<close> the address of the hardware descriptor wrapper \<^verbatim>\<open>hcd_endpoint_t\<close>
  assigned to it (\<open>None\<close> is the null pointer).\<close>

record endpoint_t =
  ep_ptr :: nat
  ep_address :: int
  ep_endpoint :: nat
  ep_direction :: usb_direction_t
  transfer_type :: usb_transfer_type_t
  ep_speed :: usb_speed_t
  max_packet_size :: nat
  hc_data :: "nat option"

text \<open>A transfer batch is bound to one endpoint (\<^verbatim>\<open>assert(batch->ep)\<close> in \<^verbatim>\<open>hc_schedule\<close>).\<close>

record usb_transfer_batch_t =
  batch_id :: nat
  batch_ep :: endpoint_t

text \<open>An endpoint list: the physical address of its sentinel head and the sequence of
  hardware descriptors linked behind it.\<close>

record endpoint_list_t =
  list_head_pa :: u32
  endpoint_list :: "nat list"

subsection \<open>Observable events\<close>

datatype event =
    Mutex_Lock
  | Mutex_Unlock
  | Reg_Write reg u32
  | List_Add usb_transfer_type_t nat
  | List_Remove usb_transfer_type_t nat
  | Batch_Commit usb_transfer_batch_t
  | Batch_Finish usb_transfer_batch_t
  | Rh_Request usb_transfer_batch_t
  | Rh_Interrupt
  | Usleep nat

subsection \<open>The driver instance\<close>

text \<open>
  \<^verbatim>\<open>hc_t\<close> with the fields the routines use: the register window, the physical address of the
  HCCA, the four endpoint lists, the pending batches, the guard, the root hub's address, the
  endpoint registrar and the device-address keeper. The last four fields are the
  environment of the instance: the live allocations of endpoint records and of hardware
  descriptors, the elapsed time in microseconds, and the trace of events.
\<close>

record hc_t =
  registers :: "reg \<Rightarrow> u32"
  hcca :: u32
  lists :: "usb_transfer_type_t \<Rightarrow> endpoint_list_t"
  pending_batches :: "usb_transfer_batch_t list"
  guard :: bool
  rh_address :: int
  ep_manager :: "endpoint_t list"
  manager :: "(int \<times> nat option) list"
  ep_heap :: "nat list"
  hcd_heap :: "nat list"
  now :: nat
  trace :: "event list"

text \<open>The controller is a party of its own. Between two register accesses of a routine
  that are not separated by a sleep the registers are taken to be stable; during a sleep
  that ends at time \<open>t\<close> the controller (or the firmware) may change them. A device is a
  function giving that change.\<close>

type_synonym device = "nat \<Rightarrow> (reg \<Rightarrow> u32) \<Rightarrow> (reg \<Rightarrow> u32)"

subsection \<open>Primitive operations\<close>

definition log_event :: "event \<Rightarrow> hc_t \<Rightarrow> hc_t" where
  "log_event e s = s\<lparr>trace := trace s @ [e]\<rparr>"

text \<open>Statements in sequence.\<close>

fun run :: "('s \<Rightarrow> 's) list \<Rightarrow> 's \<Rightarrow> 's" where
  "run [] s = s"
| "run (f # fs) s = run fs (f s)"

definition reg_read :: "reg \<Rightarrow> hc_t \<Rightarrow> u32" where
  "reg_read r s = registers s r"

text \<open>
  Modelled from the spec: what a store does to a register is the controller's matter. The
  interrupt-enable register is write-one-to-set (a written 1 enables the interrupt, a
  written 0 leaves its enable state as it is), which is how \<^verbatim>\<open>hc_start\<close> can write the
  mask and "then additionally set" the master enable bit by a second store of that bit
  alone. Every other register that the routines write keeps the value stored.
\<close>

definition reg_write :: "reg \<Rightarrow> u32 \<Rightarrow> hc_t \<Rightarrow> hc_t" where
  "reg_write r v s =
     log_event (Reg_Write r v)
       (s\<lparr>registers := (registers s)
            (r := (if r = INTERRUPT_ENABLE then registers s r OR v else v))\<rparr>)"

text \<open>\<^verbatim>\<open>reg &= m\<close> and \<^verbatim>\<open>reg |= m\<close>: read, modify, write back.\<close>

definition reg_and :: "reg \<Rightarrow> u32 \<Rightarrow> hc_t \<Rightarrow> hc_t" where
  "reg_and r m s = reg_write r (reg_read r s AND m) s"

definition reg_or :: "reg \<Rightarrow> u32 \<Rightarrow> hc_t \<Rightarrow> hc_t" where
  "reg_or r m s = reg_write r (reg_read r s OR m) s"

text \<open>Modelled from the spec: the accessors of the functional-state field, missing with
  \<^verbatim>\<open>ohci_regs.h\<close>. Reading shifts and masks; setting replaces the field in one
  read-modify-write of the control register and leaves every other bit.\<close>

definition C_HCFS_GET :: "u32 \<Rightarrow> u32" where
  "C_HCFS_GET r = drop_bit C_HCFS_SHIFT r AND C_HCFS_MASK"

definition C_HCFS_SET :: "u32 \<Rightarrow> hc_t \<Rightarrow> hc_t" where
  "C_HCFS_SET hcfs_state s =
     reg_write CONTROL
       ((reg_read CONTROL s AND NOT (push_bit C_HCFS_SHIFT C_HCFS_MASK))
          OR push_bit C_HCFS_SHIFT (hcfs_state AND C_HCFS_MASK)) s"

definition fibril_mutex_lock :: "hc_t \<Rightarrow> hc_t" where
  "fibril_mutex_lock s = log_event Mutex_Lock (s\<lparr>guard := True\<rparr>)"

definition fibril_mutex_unlock :: "hc_t \<Rightarrow> hc_t" where
  "fibril_mutex_unlock s = log_event Mutex_Unlock (s\<lparr>guard := False\<rparr>)"

text \<open>\<^verbatim>\<open>async_usleep(us)\<close>: time passes and the controller acts on its registers.\<close>

definition async_usleep :: "device \<Rightarrow> nat \<Rightarrow> hc_t \<Rightarrow> hc_t" where
  "async_usleep dev us s =
     log_event (Usleep us)
       (s\<lparr>now := now s + us, registers := dev (now s + us) (registers s)\<rparr>)"

subsection \<open>Collaborators\<close>

text \<open>
  Modelled from the spec: the endpoint list (\<^verbatim>\<open>endpoint_list.c\<close>) is not among the sources.
  Insertions link at the end of the list of the transfer type; removal unlinks the
  descriptor.
\<close>

definition endpoint_list_add_ep :: "usb_transfer_type_t \<Rightarrow> nat \<Rightarrow> hc_t \<Rightarrow> hc_t" where
  "endpoint_list_add_ep t hcd_ep s =
     log_event (List_Add t hcd_ep)
       (s\<lparr>lists := (lists s)
            (t := (lists s t)\<lparr>endpoint_list := endpoint_list (lists s t) @ [hcd_ep]\<rparr>)\<rparr>)"

definition endpoint_list_remove_ep :: "usb_transfer_type_t \<Rightarrow> nat \<Rightarrow> hc_t \<Rightarrow> hc_t" where
  "endpoint_list_remove_ep t hcd_ep s =
     log_event (List_Remove t hcd_ep)
       (s\<lparr>lists := (lists s)
            (t := (lists s t)\<lparr>endpoint_list := remove1 hcd_ep (endpoint_list (lists s t))\<rparr>)\<rparr>)"

text \<open>
  Modelled from the spec: the logical endpoint (\<^verbatim>\<open>endpoint_get\<close>, \<^verbatim>\<open>endpoint_destroy\<close>) and
  its hardware counterpart (\<^verbatim>\<open>hcd_endpoint_assign\<close>, \<^verbatim>\<open>hcd_endpoint_get\<close>,
  \<^verbatim>\<open>hcd_endpoint_clear\<close>) are not among the sources. Constructing allocates: the allocator's
  answer (an address, or \<open>None\<close> for a null pointer) is an input of the model; the address
  joins the live allocations and leaves them when the object is released.
\<close>

definition endpoint_get ::
  "nat option \<Rightarrow> int \<Rightarrow> nat \<Rightarrow> usb_direction_t \<Rightarrow> usb_transfer_type_t \<Rightarrow> usb_speed_t \<Rightarrow> nat
     \<Rightarrow> hc_t \<Rightarrow> endpoint_t option \<times> hc_t" where
  "endpoint_get alloc address endpoint direction type speed mps s =
     (case alloc of
        None \<Rightarrow> (None, s)
      | Some p \<Rightarrow>
          (Some \<lparr>ep_ptr = p, ep_address = address, ep_endpoint = endpoint,
                 ep_direction = direction, transfer_type = type, ep_speed = speed,
                 max_packet_size = mps, hc_data = None\<rparr>,
           s\<lparr>ep_heap := p # ep_heap s\<rparr>))"

definition endpoint_destroy :: "endpoint_t \<Rightarrow> hc_t \<Rightarrow> hc_t" where
  "endpoint_destroy ep s = s\<lparr>ep_heap := remove1 (ep_ptr ep) (ep_heap s)\<rparr>"

definition hcd_endpoint_assign :: "nat option \<Rightarrow> endpoint_t \<Rightarrow> hc_t \<Rightarrow> (nat \<times> endpoint_t) option \<times> hc_t" where
  "hcd_endpoint_assign alloc ep s =
     (case alloc of
        None \<Rightarrow> (None, s)
      | Some h \<Rightarrow> (Some (h, ep\<lparr>hc_data := Some h\<rparr>), s\<lparr>hcd_heap := h # hcd_heap s\<rparr>))"

definition hcd_endpoint_get :: "endpoint_t \<Rightarrow> nat option" where
  "hcd_endpoint_get ep = hc_data ep"

text \<open>Releases the hardware descriptor of \<open>ep\<close>. Both callers release or unregister the
  endpoint record itself right after, so its cleared \<open>hc_data\<close> field is not kept.\<close>

definition hcd_endpoint_clear :: "endpoint_t \<Rightarrow> hc_t \<Rightarrow> hc_t" where
  "hcd_endpoint_clear ep s =
     (case hc_data ep of
        None \<Rightarrow> s
      | Some h \<Rightarrow> s\<lparr>hcd_heap := remove1 h (hcd_heap s)\<rparr>)"

text \<open>
  Modelled from the spec: the endpoint registrar (\<^verbatim>\<open>usb_endpoint_manager\<close>) is not among the
  sources. \<open>register(ep, bandwidth)\<close> answers ok or an error (out of memory, bandwidth
  exhausted); the answer is an input of the model, and on ok the endpoint is bound to its
  (address, endpoint, direction) tuple. \<open>get\<close> finds the endpoint of a tuple;
  \<open>unregister\<close> drops it and releases the record, or reports that there is none.
\<close>

definition ep_matches :: "int \<Rightarrow> nat \<Rightarrow> usb_direction_t \<Rightarrow> endpoint_t \<Rightarrow> bool" where
  "ep_matches address endpoint direction ep =
     (ep_address ep = address \<and> ep_endpoint ep = endpoint \<and> ep_direction ep = direction)"

definition usb_endpoint_manager_register_ep :: "int \<Rightarrow> endpoint_t \<Rightarrow> nat \<Rightarrow> hc_t \<Rightarrow> int \<times> hc_t" where
  "usb_endpoint_manager_register_ep answer ep data_size s =
     (if answer = EOK then (EOK, s\<lparr>ep_manager := ep_manager s @ [ep]\<rparr>) else (answer, s))"

definition usb_endpoint_manager_get_ep ::
  "hc_t \<Rightarrow> int \<Rightarrow> nat \<Rightarrow> usb_direction_t \<Rightarrow> endpoint_t option" where
  "usb_endpoint_manager_get_ep s address endpoint direction =
     find (ep_matches address endpoint direction) (ep_manager s)"

definition usb_endpoint_manager_unregister_ep ::
  "int \<Rightarrow> nat \<Rightarrow> usb_direction_t \<Rightarrow> hc_t \<Rightarrow> int \<times> hc_t" where
  "usb_endpoint_manager_unregister_ep address endpoint direction s =
     (case find (ep_matches address endpoint direction) (ep_manager s) of
        None \<Rightarrow> (ENOENT, s)
      | Some ep \<Rightarrow> (EOK, endpoint_destroy ep (s\<lparr>ep_manager := remove1 ep (ep_manager s)\<rparr>)))"

text \<open>
  Modelled from the spec: the address keeper (\<^verbatim>\<open>usb_device_keeper\<close>) is not among the sources.
  \<open>get_free_address\<close> answers an address or an error (its answer is an input of the model)
  and occupies the address; \<open>bind\<close> attaches a handle to it; \<open>release\<close> frees it.
\<close>

definition device_keeper_get_free_address :: "int \<Rightarrow> hc_t \<Rightarrow> int \<times> hc_t" where
  "device_keeper_get_free_address answer s =
     (if 0 < answer then (answer, s\<lparr>manager := (answer, None) # manager s\<rparr>) else (answer, s))"

definition usb_device_keeper_bind :: "int \<Rightarrow> nat \<Rightarrow> hc_t \<Rightarrow> hc_t" where
  "usb_device_keeper_bind address handle s =
     s\<lparr>manager := map (\<lambda>(a, h). if a = address then (a, Some handle) else (a, h)) (manager s)\<rparr>"

definition usb_device_keeper_release :: "int \<Rightarrow> hc_t \<Rightarrow> hc_t" where
  "usb_device_keeper_release address s =
     s\<lparr>manager := filter (\<lambda>(a, h). a \<noteq> address) (manager s)\<rparr>"

text \<open>Modelled from the spec: the root hub and the batch operations are collaborators that
  are not among the sources; their calls are recorded.\<close>

definition rh_request :: "usb_transfer_batch_t \<Rightarrow> hc_t \<Rightarrow> hc_t" where
  "rh_request batch s = log_event (Rh_Request batch) s"

definition rh_interrupt :: "hc_t \<Rightarrow> hc_t" where
  "rh_interrupt s = log_event Rh_Interrupt s"

definition batch_commit :: "usb_transfer_batch_t \<Rightarrow> hc_t \<Rightarrow> hc_t" where
  "batch_commit batch s = log_event (Batch_Commit batch) s"

definition usb_transfer_batch_finish :: "usb_transfer_batch_t \<Rightarrow> hc_t \<Rightarrow> hc_t" where
  "usb_transfer_batch_finish batch s = log_event (Batch_Finish batch) s"

text \<open>\<^verbatim>\<open>list_append(&batch->link, &instance->pending_batches)\<close> and \<^verbatim>\<open>list_remove(current)\<close>.\<close>

definition list_append :: "usb_transfer_batch_t \<Rightarrow> hc_t \<Rightarrow> hc_t" where
  "list_append batch s = s\<lparr>pending_batches := pending_batches s @ [batch]\<rparr>"

definition list_remove :: "usb_transfer_batch_t \<Rightarrow> hc_t \<Rightarrow> hc_t" where
  "list_remove batch s = s\<lparr>pending_batches := remove1 batch (pending_batches s)\<rparr>"

subsection \<open>Endpoint addition and removal\<close>

text \<open>The answers of the collaborators that \<^verbatim>\<open>hc_add_endpoint\<close> calls: the two allocations and
  the registrar.\<close>

record add_answers =
  endpoint_get_answer :: "nat option"
  hcd_endpoint_assign_answer :: "nat option"
  register_ep_answer :: int

text \<open>The \<^verbatim>\<open>switch (ep->transfer_type)\<close> of \<^verbatim>\<open>hc_add_endpoint\<close>, statement by statement.\<close>

definition enqueue_hcd_ep :: "endpoint_t \<Rightarrow> nat \<Rightarrow> hc_t \<Rightarrow> hc_t" where
  "enqueue_hcd_ep ep hcd_ep s =
     (case transfer_type ep of
        USB_TRANSFER_CONTROL \<Rightarrow>
          run [reg_and CONTROL (NOT C_CLE),
               endpoint_list_add_ep (transfer_type ep) hcd_ep,
               reg_write CONTROL_CURRENT 0,
               reg_or CONTROL C_CLE] s
      | USB_TRANSFER_BULK \<Rightarrow>
          run [reg_and CONTROL (NOT C_BLE),
               endpoint_list_add_ep (transfer_type ep) hcd_ep,
               reg_or CONTROL C_BLE] s
      | USB_TRANSFER_ISOCHRONOUS \<Rightarrow>
          run [reg_and CONTROL (NOT C_PLE AND NOT C_IE),
               endpoint_list_add_ep (transfer_type ep) hcd_ep,
               reg_or CONTROL (C_PLE OR C_IE)] s
      | USB_TRANSFER_INTERRUPT \<Rightarrow>
          run [reg_and CONTROL (NOT C_PLE AND NOT C_IE),
               endpoint_list_add_ep (transfer_type ep) hcd_ep,
               reg_or CONTROL (C_PLE OR C_IE)] s)"

definition hc_add_endpoint ::
  "add_answers \<Rightarrow> hc_t \<Rightarrow> int \<Rightarrow> nat \<Rightarrow> usb_speed_t \<Rightarrow> usb_transfer_type_t \<Rightarrow> usb_direction_t
     \<Rightarrow> nat \<Rightarrow> nat \<Rightarrow> nat \<Rightarrow> int \<times> hc_t" where
  "hc_add_endpoint env instance address endpoint speed type direction mps data_size interval =
     (case endpoint_get (endpoint_get_answer env) address endpoint direction type speed mps
             instance of
        (None, s0) \<Rightarrow> (ENOMEM, s0)
      | (Some ep0, s1) \<Rightarrow>
          (case hcd_endpoint_assign (hcd_endpoint_assign_answer env) ep0 s1 of
             (None, s2) \<Rightarrow> (ENOMEM, endpoint_destroy ep0 s2)
           | (Some (hcd_ep, ep), s2) \<Rightarrow>
               (case usb_endpoint_manager_register_ep (register_ep_answer env) ep data_size s2 of
                  (ret, s3) \<Rightarrow>
                    if ret \<noteq> EOK
                    then (ret, endpoint_destroy ep (hcd_endpoint_clear ep s3))
                    else (EOK, enqueue_hcd_ep ep hcd_ep s3))))"

text \<open>The \<^verbatim>\<open>switch\<close> of \<^verbatim>\<open>hc_remove_endpoint\<close>; its \<^verbatim>\<open>default\<close> branch is empty and the
  four transfer types are all there are.\<close>

definition dequeue_hcd_ep :: "endpoint_t \<Rightarrow> nat \<Rightarrow> hc_t \<Rightarrow> hc_t" where
  "dequeue_hcd_ep ep hcd_ep s =
     (case transfer_type ep of
        USB_TRANSFER_CONTROL \<Rightarrow>
          run [reg_and CONTROL (NOT C_CLE),
               endpoint_list_remove_ep (transfer_type ep) hcd_ep,
               reg_write CONTROL_CURRENT 0,
               reg_or CONTROL C_CLE] s
      | USB_TRANSFER_BULK \<Rightarrow>
          run [reg_and CONTROL (NOT C_BLE),
               endpoint_list_remove_ep (transfer_type ep) hcd_ep,
               reg_or CONTROL C_BLE] s
      | USB_TRANSFER_ISOCHRONOUS \<Rightarrow>
          run [reg_and CONTROL (NOT C_PLE AND NOT C_IE),
               endpoint_list_remove_ep (transfer_type ep) hcd_ep,
               reg_or CONTROL (C_PLE OR C_IE)] s
      | USB_TRANSFER_INTERRUPT \<Rightarrow>
          run [reg_and CONTROL (NOT C_PLE AND NOT C_IE),
               endpoint_list_remove_ep (transfer_type ep) hcd_ep,
               reg_or CONTROL (C_PLE OR C_IE)] s)"

definition hc_remove_endpoint ::
  "hc_t \<Rightarrow> int \<Rightarrow> nat \<Rightarrow> usb_direction_t \<Rightarrow> int \<times> hc_t" where
  "hc_remove_endpoint instance address endpoint direction =
     (let s1 = fibril_mutex_lock instance in
      case usb_endpoint_manager_get_ep s1 address endpoint direction of
        None \<Rightarrow> (ENOENT, fibril_mutex_unlock s1)
      | Some ep \<Rightarrow>
          (let s2 = (case hcd_endpoint_get ep of
                       Some hcd_ep \<Rightarrow> hcd_endpoint_clear ep (dequeue_hcd_ep ep hcd_ep s1)
                     | None \<Rightarrow> s1)
           in case usb_endpoint_manager_unregister_ep address endpoint direction s2 of
                (ret, s3) \<Rightarrow> (ret, fibril_mutex_unlock s3)))"

subsection \<open>Root hub registration\<close>

text \<open>The answers of the collaborators that \<^verbatim>\<open>hc_register_hub\<close> calls.\<close>

record hub_answers =
  free_address_answer :: int
  add_endpoint_answers :: add_answers
  add_match_id_answer :: int
  bind_answer :: int

text \<open>The body of the macro \<^verbatim>\<open>CHECK_RET_RELEASE\<close> when \<^verbatim>\<open>ret != EOK\<close>.\<close>

definition CHECK_RET_RELEASE :: "int \<Rightarrow> hc_t \<Rightarrow> hc_t" where
  "CHECK_RET_RELEASE hub_address s =
     usb_device_keeper_release hub_address
       (snd (hc_remove_endpoint s hub_address 0 USB_DIRECTION_BOTH))"

definition hc_register_hub :: "hub_answers \<Rightarrow> hc_t \<Rightarrow> nat \<Rightarrow> int \<times> hc_t" where
  "hc_register_hub env instance hub_fun_handle =
     (case device_keeper_get_free_address (free_address_answer env) instance of
        (hub_address, s0) \<Rightarrow>
          if hub_address \<le> 0 then (hub_address, s0)
          else
            (let s1 = usb_device_keeper_bind hub_address hub_fun_handle
                        (s0\<lparr>rh_address := hub_address\<rparr>)
             in case hc_add_endpoint (add_endpoint_answers env) s1 hub_address 0 USB_SPEED_FULL
                       USB_TRANSFER_CONTROL USB_DIRECTION_BOTH 64 0 0 of
                  (ret1, s2) \<Rightarrow>
                    if ret1 \<noteq> EOK then (ret1, CHECK_RET_RELEASE hub_address s2)
                    else if add_match_id_answer env \<noteq> EOK
                    then (add_match_id_answer env, CHECK_RET_RELEASE hub_address s2)
                    else if bind_answer env \<noteq> EOK
                    then (bind_answer env, CHECK_RET_RELEASE hub_address s2)
                    else (EOK, s2)))"

subsection \<open>Scheduling a batch\<close>

definition hc_schedule :: "hc_t \<Rightarrow> usb_transfer_batch_t \<Rightarrow> int \<times> hc_t" where
  "hc_schedule instance batch =
     (if ep_address (batch_ep batch) = rh_address instance
      then (EOK, rh_request batch instance)
      else
        (EOK,
         run [fibril_mutex_lock,
              list_append batch,
              batch_commit batch,
              (case transfer_type (batch_ep batch) of
                 USB_TRANSFER_CONTROL \<Rightarrow> reg_or COMMAND_STATUS CS_CLF
               | USB_TRANSFER_BULK \<Rightarrow> reg_or COMMAND_STATUS CS_BLF
               | _ \<Rightarrow> id),
              fibril_mutex_unlock] instance))"

subsection \<open>Controller start\<close>

text \<open>
  The reset spin \<^verbatim>\<open>while (command_status & CS_HCR) { async_usleep(10); time += 10; }\<close>.
  Nothing bounds it: when the controller never clears the bit, the loop does not return,
  which is the value \<open>None\<close>. (\<^verbatim>\<open>time\<close> is only logged.)
\<close>

partial_function (option) hc_start_reset_spin :: "device \<Rightarrow> hc_t \<Rightarrow> hc_t option" where
  "hc_start_reset_spin dev s =
     (if reg_read COMMAND_STATUS s AND CS_HCR \<noteq> 0
      then hc_start_reset_spin dev (async_usleep dev 10 s)
      else Some s)"

text \<open>\<^verbatim>\<open>hc_start\<close>. The \<^verbatim>\<open>assert\<close> after the restore of the frame interval aborts the driver when
  it fails; an aborted call does not return either.\<close>

definition hc_start :: "device \<Rightarrow> hc_t \<Rightarrow> hc_t option" where
  "hc_start dev instance =
     (let fm_interval = reg_read FM_INTERVAL instance in
      case hc_start_reset_spin dev (reg_write COMMAND_STATUS CS_HCR instance) of
        None \<Rightarrow> None
      | Some s1 \<Rightarrow>
          (let s2 = reg_write FM_INTERVAL fm_interval s1 in
           if reg_read COMMAND_STATUS s2 AND CS_HCR \<noteq> 0 then None
           else
             (let frame_length = drop_bit FMI_FI_SHIFT fm_interval AND FMI_FI_MASK in
              Some (run [reg_write HCCA (hcca s2),
                         reg_write BULK_HEAD (list_head_pa (lists s2 USB_TRANSFER_BULK)),
                         reg_write CONTROL_HEAD (list_head_pa (lists s2 USB_TRANSFER_CONTROL)),
                         reg_or CONTROL (C_PLE OR C_IE OR C_CLE OR C_BLE),
                         reg_write INTERRUPT_ENABLE OHCI_USED_INTERRUPTS,
                         reg_write INTERRUPT_ENABLE I_MI,
                         reg_write PERIODIC_START ((frame_length div 10) * 9),
                         C_HCFS_SET C_HCFS_OPERATIONAL] s2))))"

subsection \<open>Interrupt servicing\<close>

text \<open>
  The walk over the pending batches. \<^verbatim>\<open>current\<close> runs from the first link to the head;
  \<^verbatim>\<open>next\<close> is read before the batch is looked at, so unlinking \<^verbatim>\<open>current\<close> does not disturb
  the walk: it visits the links that were in the list when it started, passed here as the
  second argument. \<^verbatim>\<open>batch_is_complete\<close> is the batch's completion predicate, a parameter.
\<close>

fun hc_interrupt_walk ::
  "(usb_transfer_batch_t \<Rightarrow> bool) \<Rightarrow> usb_transfer_batch_t list \<Rightarrow> hc_t \<Rightarrow> hc_t" where
  "hc_interrupt_walk batch_is_complete [] s = s"
| "hc_interrupt_walk batch_is_complete (batch # next) s =
     hc_interrupt_walk batch_is_complete next
       (if batch_is_complete batch
        then usb_transfer_batch_finish batch (list_remove batch s)
        else s)"

definition hc_interrupt ::
  "device \<Rightarrow> (usb_transfer_batch_t \<Rightarrow> bool) \<Rightarrow> hc_t \<Rightarrow> u32 \<Rightarrow> hc_t option" where
  "hc_interrupt dev batch_is_complete instance status =
     (if status AND NOT I_SF = 0 then Some instance
      else
        (let s1 = (if status AND I_RHSC \<noteq> 0 then rh_interrupt instance else instance);
             s2 = (if status AND I_WDH \<noteq> 0
                   then (let s = fibril_mutex_lock s1 in
                         fibril_mutex_unlock
                           (hc_interrupt_walk batch_is_complete (pending_batches s) s))
                   else s1)
         in if status AND I_UE \<noteq> 0 then hc_start dev s2 else Some s2))"

subsection \<open>Ownership handoff\<close>

text \<open>The wait for the firmware: \<^verbatim>\<open>while (control & C_IR) async_usleep(1000);\<close>. It has no
  bound either.\<close>

partial_function (option) hc_gain_control_smm_spin :: "device \<Rightarrow> hc_t \<Rightarrow> hc_t option" where
  "hc_gain_control_smm_spin dev s =
     (if reg_read CONTROL s AND C_IR \<noteq> 0
      then hc_gain_control_smm_spin dev (async_usleep dev 1000 s)
      else Some s)"

definition hc_gain_control :: "device \<Rightarrow> hc_t \<Rightarrow> hc_t option" where
  "hc_gain_control dev instance =
     (let s1 = (if reg_read REVISION instance AND R_LEGACY_FLAG \<noteq> 0
                then reg_and LEGACY_EMULATION 0x100 instance
                else instance)
      in if reg_read CONTROL s1 AND C_IR \<noteq> 0
         then
           (case hc_gain_control_smm_spin dev (reg_or COMMAND_STATUS CS_OCR s1) of
              None \<Rightarrow> None
            | Some s2 \<Rightarrow> Some (async_usleep dev 50000 (C_HCFS_SET C_HCFS_RESET s2)))
         else
           (let hc_status = C_HCFS_GET (reg_read CONTROL s1) in
            if hc_status \<noteq> C_HCFS_RESET
            then
              (if hc_status = C_HCFS_OPERATIONAL then Some s1
               else Some (async_usleep dev 20000 (C_HCFS_SET C_HCFS_RESUME s1)))
            else Some (async_usleep dev 50000 s1)))"

subsection \<open>Auxiliary definitions for the statements\<close>

text \<open>\<open>k\<close> sleeps of \<open>us\<close> microseconds in a row: what a spin loop does to the instance.\<close>

fun usleeps :: "device \<Rightarrow> nat \<Rightarrow> nat \<Rightarrow> hc_t \<Rightarrow> hc_t" where
  "usleeps dev us 0 s = s"
| "usleeps dev us (Suc k) s = usleeps dev us k (async_usleep dev us s)"

text \<open>The statements of \<^verbatim>\<open>hc_start\<close> after the reset spin and the restore of the frame
  interval, under a name.\<close>

definition hc_start_tail :: "u32 \<Rightarrow> hc_t \<Rightarrow> hc_t" where
  "hc_start_tail fm_interval s2 =
     run [reg_write HCCA (hcca s2),
          reg_write BULK_HEAD (list_head_pa (lists s2 USB_TRANSFER_BULK)),
          reg_write CONTROL_HEAD (list_head_pa (lists s2 USB_TRANSFER_CONTROL)),
          reg_or CONTROL (C_PLE OR C_IE OR C_CLE OR C_BLE),
          reg_write INTERRUPT_ENABLE OHCI_USED_INTERRUPTS,
          reg_write INTERRUPT_ENABLE I_MI,
          reg_write PERIODIC_START
            (((drop_bit FMI_FI_SHIFT fm_interval AND FMI_FI_MASK) div 10) * 9),
          C_HCFS_SET C_HCFS_OPERATIONAL] s2"

text \<open>The batches whose finish callback a trace records, in the order of the calls.\<close>

fun finished_batches :: "event list \<Rightarrow> usb_transfer_batch_t list" where
  "finished_batches [] = []"
| "finished_batches (Batch_Finish b # es) = b # finished_batches es"
| "finished_batches (e # es) = finished_batches es"

subsection \<open>A concrete controller and instance\<close>

text \<open>
  A controller that completes a reset within one sleep and whose firmware gives up the
  interrupt routing three milliseconds after the start; an instance over a register window
  with all four lists enabled, the controller operational and the frame interval field at
  its nominal \<open>0x2EDF\<close>.
\<close>

definition example_device :: device where
  "example_device t r =
     r(COMMAND_STATUS := r COMMAND_STATUS AND NOT CS_HCR,
       CONTROL := (if 3000 \<le> t then r CONTROL AND NOT C_IR else r CONTROL))"

definition example_registers :: "reg \<Rightarrow> u32" where
  "example_registers =
     (\<lambda>r. 0)(CONTROL := 0xBC, FM_INTERVAL := 0x27782EDF, CONTROL_CURRENT := 0x2000,
             BULK_CURRENT := 0x1000)"

definition example_hc :: hc_t where
  "example_hc =
     \<lparr>registers = example_registers, hcca = 0x8000,
      lists = (\<lambda>t. \<lparr>list_head_pa = 0x4000, endpoint_list = []\<rparr>),
      pending_batches = [], guard = False, rh_address = 1, ep_manager = [], manager = [],
      ep_heap = [], hcd_heap = [], now = 0, trace = []\<rparr>"

text \<open>Two batches, and the instance with both pending.\<close>

definition example_batch1 :: usb_transfer_batch_t where
  "example_batch1 =
     \<lparr>batch_id = 1,
      batch_ep = \<lparr>ep_ptr = 100, ep_address = 2, ep_endpoint = 0,
                  ep_direction = USB_DIRECTION_BOTH, transfer_type = USB_TRANSFER_CONTROL,
                  ep_speed = USB_SPEED_FULL, max_packet_size = 64, hc_data = Some 200\<rparr>\<rparr>"

definition example_batch2 :: usb_transfer_batch_t where
  "example_batch2 =
     \<lparr>batch_id = 2,
      batch_ep = \<lparr>ep_ptr = 101, ep_address = 3, ep_endpoint = 1,
                  ep_direction = USB_DIRECTION_IN, transfer_type = USB_TRANSFER_BULK,
                  ep_speed = USB_SPEED_FULL, max_packet_size = 64, hc_data = Some 201\<rparr>\<rparr>"

definition example_pending :: hc_t where
  "example_pending = example_hc\<lparr>pending_batches := [example_batch1, example_batch2]\<rparr>"

text \<open>Which error \<^verbatim>\<open>hc_add_endpoint\<close> meets first, given the answers of its collaborators:
  a failed allocation is \<open>ENOMEM\<close>, a refusal of the registrar is the registrar's code;
  \<open>None\<close> when nothing fails. Likewise for \<^verbatim>\<open>hc_register_hub\<close> once it has an address: the
  failure of the endpoint addition, else of the match-id addition, else of the binding.\<close>

definition add_failure :: "add_answers \<Rightarrow> int option" where
  "add_failure env =
     (if endpoint_get_answer env = None \<or> hcd_endpoint_assign_answer env = None
      then Some ENOMEM
      else if register_ep_answer env \<noteq> EOK then Some (register_ep_answer env)
      else None)"

definition hub_failure :: "hub_answers \<Rightarrow> int option" where
  "hub_failure env =
     (case add_failure (add_endpoint_answers env) of
        Some e \<Rightarrow> Some e
      | None \<Rightarrow>
          if add_match_id_answer env \<noteq> EOK then Some (add_match_id_answer env)
          else if bind_answer env \<noteq> EOK then Some (bind_answer env)
          else None)"

text \<open>What the handoff establishes: the functional state is one of OPERATIONAL, RESET and
  RESUME, and the interrupt-routing bit is clear.\<close>

definition handed_over :: "hc_t \<Rightarrow> bool" where
  "handed_over s =
     (C_HCFS_GET (reg_read CONTROL s) \<in> {C_HCFS_OPERATIONAL, C_HCFS_RESET, C_HCFS_RESUME}
      \<and> reg_read CONTROL s AND C_IR = 0)"

text \<open>A trace is guarded when every endpoint-list mutation and every write to the control
  register in it happens between a lock and an unlock of the guard; the first argument
  says whether the guard is held when the trace starts.\<close>

fun guarded :: "bool \<Rightarrow> event list \<Rightarrow> bool" where
  "guarded held [] = True"
| "guarded held (Mutex_Lock # es) = guarded True es"
| "guarded held (Mutex_Unlock # es) = guarded False es"
| "guarded held (List_Add t h # es) = (held \<and> guarded held es)"
| "guarded held (List_Remove t h # es) = (held \<and> guarded held es)"
| "guarded held (Reg_Write r v # es) = (if r = CONTROL then held \<and> guarded held es else guarded held es)"
| "guarded held (e # es) = guarded held es"

text \<open>The instance after the root-hub and the writeback-done branch of \<^verbatim>\<open>hc_interrupt\<close>,
  before the branch of the unrecoverable error, under a name.\<close>

definition hc_interrupt_reaped ::
  "(usb_transfer_batch_t \<Rightarrow> bool) \<Rightarrow> hc_t \<Rightarrow> u32 \<Rightarrow> hc_t" where
  "hc_interrupt_reaped batch_is_complete instance status =
     (let s1 = (if status AND I_RHSC \<noteq> 0 then rh_interrupt instance else instance)
      in if status AND I_WDH \<noteq> 0
         then (let s = fibril_mutex_lock s1 in
               fibril_mutex_unlock (hc_interrupt_walk batch_is_complete (pending_batches s) s))
         else s1)"

text \<open>Answers of the collaborators: the descriptor allocation fails; everything succeeds;
  the address is 1 and everything succeeds but the binding of the hub function.\<close>

definition example_add_no_descriptor :: add_answers where
  "example_add_no_descriptor =
     \<lparr>endpoint_get_answer = Some 100, hcd_endpoint_assign_answer = None,
      register_ep_answer = 0\<rparr>"

definition example_add_ok :: add_answers where
  "example_add_ok =
     \<lparr>endpoint_get_answer = Some 100, hcd_endpoint_assign_answer = Some 200,
      register_ep_answer = 0\<rparr>"

definition example_hub_bind_fails :: hub_answers where
  "example_hub_bind_fails =
     \<lparr>free_address_answer = 1, add_endpoint_answers = example_add_ok,
      add_match_id_answer = 0, bind_answer = - 5\<rparr>"

text \<open>The instance with the interrupt-routing bit set: the firmware owns the controller.\<close>

definition example_smm_owned :: hc_t where
  "example_smm_owned = example_hc\<lparr>registers := example_registers(CONTROL := 0x1BC)\<rparr>"

text \<open>The instance after the successful addition of a bulk endpoint.\<close>

definition example_bulk_added :: hc_t where
  "example_bulk_added =
     snd (hc_add_endpoint example_add_ok example_hc 3 1 USB_SPEED_FULL USB_TRANSFER_BULK
            USB_DIRECTION_IN 64 0 0)"

text \<open>A firmware that answers a pending ownership-change request three milliseconds after
  the start: it gives up the interrupt routing, leaves the controller suspended and clears
  the request. It does nothing else.\<close>

definition example_firmware :: device where
  "example_firmware t r =
     (if 3000 \<le> t \<and> r COMMAND_STATUS AND CS_OCR \<noteq> 0 \<and> r CONTROL AND C_IR \<noteq> 0
      then r(CONTROL := (r CONTROL AND NOT C_IR) OR push_bit C_HCFS_SHIFT C_HCFS_SUSPEND,
             COMMAND_STATUS := r COMMAND_STATUS AND NOT CS_OCR)
      else r)"

text \<open>The instance found suspended, with the interrupt routing clear.\<close>

definition example_suspended :: hc_t where
  "example_suspended = example_hc\<lparr>registers := example_registers(CONTROL := 0xFC)\<rparr>"

section \<open>Properties\<close>

subsection \<open>Sleeping and the reset spin\<close>

lemmas primitive_defs = reg_write_def reg_read_def reg_or_def reg_and_def log_event_def
  C_HCFS_SET_def async_usleep_def

lemma usleeps_pending: "pending_batches (usleeps dev us k s) = pending_batches s"
  by (induction k arbitrary: s) (simp_all add: primitive_defs)

lemma usleeps_trace: "trace (usleeps dev us k s) = trace s @ replicate k (Usleep us)"
  by (induction k arbitrary: s) (simp_all add: primitive_defs replicate_app_Cons_same)

lemma finished_batches_append:
  "finished_batches (xs @ ys) = finished_batches xs @ finished_batches ys"
  by (induction xs rule: finished_batches.induct) simp_all

lemma finished_batches_map: "finished_batches (map Batch_Finish bs) = bs"
  by (induction bs) simp_all

lemma finished_batches_replicate: "finished_batches (replicate k (Usleep us)) = []"
  by (induction k) simp_all

text \<open>When the reset spin returns, it has slept some number of times and the reset bit
  reads clear.\<close>

lemma reset_spin_Some:
  "hc_start_reset_spin dev s = Some s' \<Longrightarrow>
     (\<exists>k. s' = usleeps dev 10 k s) \<and> reg_read COMMAND_STATUS s' AND CS_HCR = 0"
proof (induction rule: hc_start_reset_spin.raw_induct[rotated 1, consumes 1])
  case (1 spin dev s s')
  show ?case
  proof (cases "reg_read COMMAND_STATUS s AND CS_HCR = 0")
    case True
    with 1(2) have "s' = s" by simp
    with True show ?thesis by (auto intro!: exI[of _ 0])
  next
    case False
    with 1(2) have "spin dev (async_usleep dev 10 s) = Some s'" by simp
    from 1(1)[OF this] obtain k where "s' = usleeps dev 10 (Suc k) s"
      and "reg_read COMMAND_STATUS s' AND CS_HCR = 0" by auto
    then show ?thesis by blast
  qed
qed

lemma reset_spin_done:
  "reg_read COMMAND_STATUS s AND CS_HCR = 0 \<Longrightarrow> hc_start_reset_spin dev s = Some s"
  by (subst hc_start_reset_spin.simps) simp

lemma reset_spin_step:
  "reg_read COMMAND_STATUS s AND CS_HCR \<noteq> 0 \<Longrightarrow>
     hc_start_reset_spin dev s = hc_start_reset_spin dev (async_usleep dev 10 s)"
  by (subst hc_start_reset_spin.simps) simp

text \<open>A controller that reads the reset bit clear from some time on ends the spin.\<close>

lemma reset_spin_returns:
  assumes ev: "\<And>t r. T \<le> t \<Longrightarrow> dev t r COMMAND_STATUS AND CS_HCR = 0"
  shows "\<exists>s'. hc_start_reset_spin dev s = Some s'"
proof (induction "T - now s" arbitrary: s rule: less_induct)
  case less
  show ?case
  proof (cases "reg_read COMMAND_STATUS s AND CS_HCR = 0")
    case True
    then show ?thesis by (simp add: reset_spin_done)
  next
    case False
    let ?s2 = "async_usleep dev 10 s"
    have step: "hc_start_reset_spin dev s = hc_start_reset_spin dev ?s2"
      using False by (simp add: reset_spin_step)
    show ?thesis
    proof (cases "T \<le> now s + 10")
      case True
      then have "reg_read COMMAND_STATUS ?s2 AND CS_HCR = 0"
        by (simp add: primitive_defs ev)
      then show ?thesis using step by (simp add: reset_spin_done)
    next
      case False
      then have "T - now ?s2 < T - now s" by (simp add: primitive_defs)
      from less[OF this] show ?thesis using step by simp
    qed
  qed
qed

subsection \<open>Controller start\<close>

lemma hc_start_Some:
  assumes "hc_start dev s = Some s'"
  shows "\<exists>k. s' = hc_start_tail (reg_read FM_INTERVAL s)
           (reg_write FM_INTERVAL (reg_read FM_INTERVAL s)
              (usleeps dev 10 k (reg_write COMMAND_STATUS CS_HCR s)))"
proof (cases "hc_start_reset_spin dev (reg_write COMMAND_STATUS CS_HCR s)")
  case None
  with assms show ?thesis by (simp add: hc_start_def)
next
  case (Some s1)
  from reset_spin_Some[OF Some] obtain k where
    k: "s1 = usleeps dev 10 k (reg_write COMMAND_STATUS CS_HCR s)" by blast
  let ?s2 = "reg_write FM_INTERVAL (reg_read FM_INTERVAL s) s1"
  have "hc_start dev s =
     (if reg_read COMMAND_STATUS ?s2 AND CS_HCR \<noteq> 0 then None
      else Some (hc_start_tail (reg_read FM_INTERVAL s) ?s2))"
    unfolding hc_start_def hc_start_tail_def Let_def Some by simp
  with assms have "s' = hc_start_tail (reg_read FM_INTERVAL s) ?s2"
    by (simp split: if_splits)
  with k show ?thesis by blast
qed

lemma hc_start_returns:
  assumes ev: "\<And>t r. T \<le> t \<Longrightarrow> dev t r COMMAND_STATUS AND CS_HCR = 0"
  shows "\<exists>s'. hc_start dev s = Some s'"
proof -
  from reset_spin_returns[of T dev, OF ev] obtain s1 where
    s1: "hc_start_reset_spin dev (reg_write COMMAND_STATUS CS_HCR s) = Some s1" by blast
  from reset_spin_Some[OF s1] have "reg_read COMMAND_STATUS s1 AND CS_HCR = 0" by simp
  then have "reg_read COMMAND_STATUS (reg_write FM_INTERVAL (reg_read FM_INTERVAL s) s1)
               AND CS_HCR = 0"
    by (simp add: primitive_defs)
  with s1 show ?thesis by (simp add: hc_start_def Let_def)
qed

lemma hc_start_tail_trace:
  "trace (hc_start_tail fm s) = trace s @
     [Reg_Write HCCA (hcca s),
      Reg_Write BULK_HEAD (list_head_pa (lists s USB_TRANSFER_BULK)),
      Reg_Write CONTROL_HEAD (list_head_pa (lists s USB_TRANSFER_CONTROL)),
      Reg_Write CONTROL (reg_read CONTROL s OR (C_PLE OR C_IE OR C_CLE OR C_BLE)),
      Reg_Write INTERRUPT_ENABLE OHCI_USED_INTERRUPTS,
      Reg_Write INTERRUPT_ENABLE I_MI,
      Reg_Write PERIODIC_START (((drop_bit FMI_FI_SHIFT fm AND FMI_FI_MASK) div 10) * 9),
      Reg_Write CONTROL
        (((reg_read CONTROL s OR (C_PLE OR C_IE OR C_CLE OR C_BLE))
            AND NOT (push_bit C_HCFS_SHIFT C_HCFS_MASK))
           OR push_bit C_HCFS_SHIFT (C_HCFS_OPERATIONAL AND C_HCFS_MASK))]"
  by (simp add: hc_start_tail_def primitive_defs)

lemma hc_start_tail_interrupt_enable:
  "reg_read INTERRUPT_ENABLE (hc_start_tail fm s) =
     reg_read INTERRUPT_ENABLE s OR OHCI_USED_INTERRUPTS OR I_MI"
  by (simp add: hc_start_tail_def primitive_defs or.assoc)

lemma hc_start_periodic:
  assumes "hc_start dev s = Some s'"
  shows "reg_read PERIODIC_START s' =
    ((drop_bit FMI_FI_SHIFT (reg_read FM_INTERVAL s) AND FMI_FI_MASK) div 10) * 9"
proof -
  from hc_start_Some[OF assms] obtain s2 where
    "s' = hc_start_tail (reg_read FM_INTERVAL s) s2" by blast
  then show ?thesis
    by (simp add: hc_start_tail_def primitive_defs)
qed

lemma hc_start_pending:
  assumes "hc_start dev s = Some s'"
  shows "pending_batches s' = pending_batches s"
proof -
  from hc_start_Some[OF assms] obtain k where
   "s' = hc_start_tail (reg_read FM_INTERVAL s)
           (reg_write FM_INTERVAL (reg_read FM_INTERVAL s)
              (usleeps dev 10 k (reg_write COMMAND_STATUS CS_HCR s)))" by blast
  then show ?thesis
    by (simp add: hc_start_tail_def primitive_defs usleeps_pending)
qed

lemma hc_start_finished:
  assumes "hc_start dev s = Some s'"
  shows "finished_batches (trace s') = finished_batches (trace s)"
proof -
  from hc_start_Some[OF assms] obtain k where
   "s' = hc_start_tail (reg_read FM_INTERVAL s)
           (reg_write FM_INTERVAL (reg_read FM_INTERVAL s)
              (usleeps dev 10 k (reg_write COMMAND_STATUS CS_HCR s)))" by blast
  then show ?thesis
    by (simp add: hc_start_tail_trace finished_batches_append usleeps_trace
        finished_batches_replicate reg_write_def log_event_def)
qed

lemma example_device_resets: "0 \<le> t \<Longrightarrow> example_device t r COMMAND_STATUS AND CS_HCR = 0"
  by (simp add: example_device_def and.assoc)

lemma example_hc_frame_interval:
  "drop_bit FMI_FI_SHIFT (reg_read FM_INTERVAL example_hc) AND FMI_FI_MASK = 0x2EDF"
  by (simp add: example_hc_def example_registers_def reg_read_def FMI_FI_SHIFT_def
      FMI_FI_MASK_def)

lemma hc_start_example_periodic_start:
  "map_option (reg_read PERIODIC_START) (hc_start example_device example_hc) = Some 0x2A27"
proof -
  from hc_start_returns[of 0 example_device example_hc] obtain s' where
    s': "hc_start example_device example_hc = Some s'" using example_device_resets by blast
  from hc_start_periodic[OF s'] have "reg_read PERIODIC_START s' = 0x2A27"
    by (simp add: example_hc_frame_interval)
  with s' show ?thesis by simp
qed

text \<open>The product \<open>(frame_length / 10) * 9\<close> does not wrap: the field has 14 bits.\<close>

lemma periodic_start_unat:
  fixes fm :: u32
  shows "unat (((drop_bit FMI_FI_SHIFT fm AND FMI_FI_MASK) div 10) * 9)
          = (unat (drop_bit FMI_FI_SHIFT fm AND FMI_FI_MASK) div 10) * 9"
proof -
  let ?fl = "drop_bit FMI_FI_SHIFT fm AND FMI_FI_MASK"
  have "?fl \<le> FMI_FI_MASK" by (rule word_and_le1)
  then have le: "unat ?fl \<le> 16383"
    by (simp add: word_le_nat_alt FMI_FI_MASK_def)
  have d: "unat (?fl div 10) = unat ?fl div 10"
    by (simp add: unat_div)
  have "unat (?fl div 10 * 9) = (unat (?fl div 10) * 9) mod 2 ^ 32"
    by (simp add: unat_word_ariths)
  also have "\<dots> = unat ?fl div 10 * 9"
    using le unfolding d by simp
  finally show ?thesis .
qed

text \<open>
  Claim C3, as amended. Whenever \<^verbatim>\<open>hc_start\<close> returns, it has set the periodic-start
  register to \<open>(FI div 10) * 9\<close>, where \<open>FI\<close> is the frame-interval field of the
  frame-interval register read at entry: nine times the tenth of the field, the division
  rounding down and nothing wrapping around; when the field is \<open>0x2EDF\<close> (11999) the
  register afterwards holds \<open>0x2A27\<close> (10791). And \<^verbatim>\<open>hc_start\<close> does return when the
  controller reads the reset bit clear from some time on.
\<close>

theorem hc_start_periodic_start:
  "(\<forall>s'. hc_start dev instance = Some s' \<longrightarrow>
       reg_read PERIODIC_START s'
           = ((drop_bit FMI_FI_SHIFT (reg_read FM_INTERVAL instance) AND FMI_FI_MASK) div 10) * 9
       \<and> unat (reg_read PERIODIC_START s')
           = (unat (drop_bit FMI_FI_SHIFT (reg_read FM_INTERVAL instance) AND FMI_FI_MASK) div 10) * 9
       \<and> (drop_bit FMI_FI_SHIFT (reg_read FM_INTERVAL instance) AND FMI_FI_MASK = 0x2EDF
            \<longrightarrow> reg_read PERIODIC_START s' = 0x2A27))
   \<and> ((\<exists>T. \<forall>t r. T \<le> t \<longrightarrow> dev t r COMMAND_STATUS AND CS_HCR = 0)
        \<longrightarrow> (\<exists>s'. hc_start dev instance = Some s'))"
proof (intro conjI allI impI)
  fix s' assume s': "hc_start dev instance = Some s'"
  show "reg_read PERIODIC_START s'
           = ((drop_bit FMI_FI_SHIFT (reg_read FM_INTERVAL instance) AND FMI_FI_MASK) div 10) * 9"
    by (rule hc_start_periodic[OF s'])
  then show "unat (reg_read PERIODIC_START s')
           = (unat (drop_bit FMI_FI_SHIFT (reg_read FM_INTERVAL instance) AND FMI_FI_MASK) div 10) * 9"
    using periodic_start_unat[of "reg_read FM_INTERVAL instance"] by simp
  assume "drop_bit FMI_FI_SHIFT (reg_read FM_INTERVAL instance) AND FMI_FI_MASK = 0x2EDF"
  with hc_start_periodic[OF s'] show "reg_read PERIODIC_START s' = 0x2A27" by simp
next
  assume "\<exists>T. \<forall>t r. T \<le> t \<longrightarrow> dev t r COMMAND_STATUS AND CS_HCR = 0"
  then obtain T where "\<And>t r. T \<le> t \<Longrightarrow> dev t r COMMAND_STATUS AND CS_HCR = 0" by blast
  then show "\<exists>s'. hc_start dev instance = Some s'" by (rule hc_start_returns)
qed

theorem hc_start_periodic_start_witness:
  "\<exists>s'. hc_start example_device example_hc = Some s' \<and> reg_read PERIODIC_START s' = 0x2A27"
proof -
  have ev: "\<exists>T. \<forall>t r. T \<le> t \<longrightarrow> example_device t r COMMAND_STATUS AND CS_HCR = 0"
    using example_device_resets by blast
  from hc_start_periodic_start[of example_device example_hc] ev example_hc_frame_interval
  show ?thesis by blast
qed

text \<open>
  Claim C3 as stated fails: with the frame-interval field at \<open>0x2EDF\<close>, \<^verbatim>\<open>hc_start\<close> returns
  and leaves \<open>0x2A27\<close> in the periodic-start register, not \<open>0x2A2E\<close>.
\<close>

theorem hc_start_periodic_start_counterexample:
  "drop_bit FMI_FI_SHIFT (reg_read FM_INTERVAL example_hc) AND FMI_FI_MASK = 0x2EDF
   \<and> map_option (reg_read PERIODIC_START) (hc_start example_device example_hc) = Some 0x2A27
   \<and> map_option (reg_read PERIODIC_START) (hc_start example_device example_hc) \<noteq> Some 0x2A2E"
proof -
  have "map_option (reg_read PERIODIC_START) (hc_start example_device example_hc)
          \<noteq> Some 0x2A2E"
    unfolding hc_start_example_periodic_start by simp
  with example_hc_frame_interval hc_start_example_periodic_start show ?thesis by blast
qed

lemma word_or_and_absorb: "((x::u32) OR y) AND y = y"
  by (rule bit_word_eqI) (auto simp add: bit_simps)

text \<open>
  Claim C4. When \<^verbatim>\<open>hc_start\<close> returns, it has written the mask \<open>SO|WDH|UE|RHSC\<close> to the
  interrupt-enable register and, as the next write to it, the master-interrupt-enable bit;
  the enable state of the controller then has all of SO, WDH, UE, RHSC and MI on.
\<close>

theorem hc_start_interrupt_enable:
  assumes "hc_start dev instance = Some s'"
  shows "(\<exists>pre post. trace s' =
            pre @ [Reg_Write INTERRUPT_ENABLE (I_SO OR I_WDH OR I_UE OR I_RHSC),
                   Reg_Write INTERRUPT_ENABLE I_MI] @ post)
       \<and> reg_read INTERRUPT_ENABLE s' AND (I_SO OR I_WDH OR I_UE OR I_RHSC OR I_MI)
           = (I_SO OR I_WDH OR I_UE OR I_RHSC OR I_MI)"
proof -
  from hc_start_Some[OF assms] obtain s2 where
    s': "s' = hc_start_tail (reg_read FM_INTERVAL instance) s2"
    by blast
  let ?fm = "reg_read FM_INTERVAL instance"
  let ?pre = "trace s2 @
     [Reg_Write HCCA (hcca s2),
      Reg_Write BULK_HEAD (list_head_pa (lists s2 USB_TRANSFER_BULK)),
      Reg_Write CONTROL_HEAD (list_head_pa (lists s2 USB_TRANSFER_CONTROL)),
      Reg_Write CONTROL (reg_read CONTROL s2 OR (C_PLE OR C_IE OR C_CLE OR C_BLE))]"
  let ?post = "[Reg_Write PERIODIC_START (((drop_bit FMI_FI_SHIFT ?fm AND FMI_FI_MASK) div 10) * 9),
      Reg_Write CONTROL
        (((reg_read CONTROL s2 OR (C_PLE OR C_IE OR C_CLE OR C_BLE))
            AND NOT (push_bit C_HCFS_SHIFT C_HCFS_MASK))
           OR push_bit C_HCFS_SHIFT (C_HCFS_OPERATIONAL AND C_HCFS_MASK))]"
  have "trace s' = ?pre @ [Reg_Write INTERRUPT_ENABLE (I_SO OR I_WDH OR I_UE OR I_RHSC),
                   Reg_Write INTERRUPT_ENABLE I_MI] @ ?post"
    unfolding s' hc_start_tail_trace by (simp add: OHCI_USED_INTERRUPTS_def)
  then have tr: "\<exists>pre post. trace s' =
            pre @ [Reg_Write INTERRUPT_ENABLE (I_SO OR I_WDH OR I_UE OR I_RHSC),
                   Reg_Write INTERRUPT_ENABLE I_MI] @ post"
    by blast
  have "reg_read INTERRUPT_ENABLE s' =
     reg_read INTERRUPT_ENABLE s2 OR (I_SO OR I_WDH OR I_UE OR I_RHSC OR I_MI)"
    unfolding s' hc_start_tail_interrupt_enable
    by (simp add: OHCI_USED_INTERRUPTS_def or.assoc)
  then have "reg_read INTERRUPT_ENABLE s' AND (I_SO OR I_WDH OR I_UE OR I_RHSC OR I_MI)
           = (I_SO OR I_WDH OR I_UE OR I_RHSC OR I_MI)"
    by (simp only: word_or_and_absorb)
  with tr show ?thesis by blast
qed

theorem hc_start_interrupt_enable_witness:
  "\<exists>s'. hc_start example_device example_hc = Some s'
     \<and> reg_read INTERRUPT_ENABLE s' AND (I_SO OR I_WDH OR I_UE OR I_RHSC OR I_MI)
           = (I_SO OR I_WDH OR I_UE OR I_RHSC OR I_MI)"
proof -
  from hc_start_returns[of 0 example_device example_hc] obtain s' where
    s': "hc_start example_device example_hc = Some s'" using example_device_resets by blast
  from hc_start_interrupt_enable[OF s'] s' show ?thesis by blast
qed

subsection \<open>Interrupt servicing\<close>

text \<open>
  Claim C8. Invoked with status 0, or with a status whose only set bit is SF,
  \<^verbatim>\<open>hc_interrupt\<close> returns at once and leaves the instance as it was: no callback, no batch
  removed, no register written, nothing added to the trace.
\<close>

theorem hc_interrupt_sf_noop:
  "hc_interrupt dev batch_is_complete instance 0 = Some instance
   \<and> hc_interrupt dev batch_is_complete instance I_SF = Some instance"
  by (simp add: hc_interrupt_def)

lemma hc_interrupt_walk_trace:
  "trace (hc_interrupt_walk c xs s) = trace s @ map Batch_Finish (filter c xs)"
  by (induction xs arbitrary: s)
     (simp_all add: usb_transfer_batch_finish_def list_remove_def log_event_def)

lemma hc_interrupt_walk_pending_aux:
  "pending_batches s = filter (\<lambda>b. \<not> c b) seen @ xs \<Longrightarrow>
   pending_batches (hc_interrupt_walk c xs s) = filter (\<lambda>b. \<not> c b) (seen @ xs)"
proof (induction xs arbitrary: s seen)
  case Nil
  then show ?case by simp
next
  case (Cons b rest)
  show ?case
  proof (cases "c b")
    case True
    let ?s = "usb_transfer_batch_finish b (list_remove b s)"
    have "b \<notin> set (filter (\<lambda>b. \<not> c b) seen)" using True by simp
    then have "pending_batches ?s = filter (\<lambda>b. \<not> c b) seen @ rest"
      using Cons.prems True
      by (simp add: usb_transfer_batch_finish_def list_remove_def log_event_def remove1_append)
    from Cons.IH[OF this] show ?thesis using True by simp
  next
    case False
    have "pending_batches s = filter (\<lambda>b. \<not> c b) (seen @ [b]) @ rest"
      using Cons.prems False by simp
    from Cons.IH[OF this] show ?thesis using False by simp
  qed
qed

lemma hc_interrupt_walk_pending:
  "pending_batches (hc_interrupt_walk c (pending_batches s) s)
     = filter (\<lambda>b. \<not> c b) (pending_batches s)"
  using hc_interrupt_walk_pending_aux[of s c "[]" "pending_batches s"] by simp

lemma hc_interrupt_unfold:
  "status AND NOT I_SF \<noteq> 0 \<Longrightarrow>
   hc_interrupt dev c s status =
     (if status AND I_UE \<noteq> 0 then hc_start dev (hc_interrupt_reaped c s status)
      else Some (hc_interrupt_reaped c s status))"
  by (simp add: hc_interrupt_def hc_interrupt_reaped_def Let_def)


lemma bit_test: "((x::u32) AND push_bit j 1 \<noteq> 0) = bit x j"
  by (simp add: and_exp_eq_0_iff_not_bit)

lemma bit_test_other:
  fixes x :: u32
  assumes "j \<noteq> k" and "x AND push_bit j 1 \<noteq> 0"
  shows "x AND NOT (push_bit k 1) \<noteq> 0"
proof
  assume z: "x AND NOT (push_bit k 1) = 0"
  from assms(2) have b: "bit x j" by (simp only: bit_test)
  then have "j < 32" by (auto dest: bit_imp_le_length)
  with b assms(1) have "bit (x AND NOT (push_bit k 1)) j"
    by (simp add: bit_simps)
  with z show False by simp
qed

lemma wdh_not_sf: "status AND I_WDH \<noteq> 0 \<Longrightarrow> status AND NOT I_SF \<noteq> 0"
  unfolding I_WDH_def I_SF_def by (rule bit_test_other[of 1 2]) simp_all

lemma ue_not_sf: "status AND I_UE \<noteq> 0 \<Longrightarrow> status AND NOT I_SF \<noteq> 0"
  unfolding I_UE_def I_SF_def by (rule bit_test_other[of 4 2]) simp_all

lemma hc_interrupt_reaped_pending:
  "status AND I_WDH \<noteq> 0 \<Longrightarrow>
   pending_batches (hc_interrupt_reaped c s status) = filter (\<lambda>b. \<not> c b) (pending_batches s)"
proof -
  assume w: "status AND I_WDH \<noteq> 0"
  let ?s1 = "if status AND I_RHSC \<noteq> 0 then rh_interrupt s else s"
  let ?l = "fibril_mutex_lock ?s1"
  have p: "pending_batches ?l = pending_batches s"
    by (simp add: fibril_mutex_lock_def rh_interrupt_def log_event_def)
  have "pending_batches (hc_interrupt_reaped c s status)
      = pending_batches (hc_interrupt_walk c (pending_batches ?l) ?l)"
    using w by (simp add: hc_interrupt_reaped_def Let_def fibril_mutex_unlock_def log_event_def)
  also have "\<dots> = filter (\<lambda>b. \<not> c b) (pending_batches ?l)"
    by (rule hc_interrupt_walk_pending)
  finally show ?thesis unfolding p .
qed

lemma hc_interrupt_reaped_trace:
  "status AND I_WDH \<noteq> 0 \<Longrightarrow>
   trace (hc_interrupt_reaped c s status) =
     trace s @ (if status AND I_RHSC \<noteq> 0 then [Rh_Interrupt] else [])
       @ [Mutex_Lock] @ map Batch_Finish (filter c (pending_batches s)) @ [Mutex_Unlock]"
  by (simp add: hc_interrupt_reaped_def Let_def fibril_mutex_unlock_def fibril_mutex_lock_def
      log_event_def rh_interrupt_def hc_interrupt_walk_trace)

lemma hc_interrupt_reaped_no_wdh:
  "status AND I_WDH = 0 \<Longrightarrow>
   pending_batches (hc_interrupt_reaped c s status) = pending_batches s
   \<and> finished_batches (trace (hc_interrupt_reaped c s status)) = finished_batches (trace s)"
  by (simp add: hc_interrupt_reaped_def Let_def rh_interrupt_def log_event_def
      finished_batches_append)

lemma hc_start_trace_extends:
  assumes "hc_start dev s = Some s'"
  shows "\<exists>post. trace s' = trace s @ post \<and> finished_batches post = []"
proof -
  from hc_start_Some[OF assms] obtain k where
   "s' = hc_start_tail (reg_read FM_INTERVAL s)
           (reg_write FM_INTERVAL (reg_read FM_INTERVAL s)
              (usleeps dev 10 k (reg_write COMMAND_STATUS CS_HCR s)))" by blast
  then have "trace s' = trace s @
      ([Reg_Write COMMAND_STATUS CS_HCR] @ replicate k (Usleep 10)
        @ [Reg_Write FM_INTERVAL (reg_read FM_INTERVAL s)] @
        drop (length (trace (reg_write FM_INTERVAL (reg_read FM_INTERVAL s)
              (usleeps dev 10 k (reg_write COMMAND_STATUS CS_HCR s)))))
             (trace s'))"
    by (simp add: hc_start_tail_trace usleeps_trace reg_write_def log_event_def)
  moreover have "finished_batches ([Reg_Write COMMAND_STATUS CS_HCR] @ replicate k (Usleep 10)
        @ [Reg_Write FM_INTERVAL (reg_read FM_INTERVAL s)] @
        drop (length (trace (reg_write FM_INTERVAL (reg_read FM_INTERVAL s)
              (usleeps dev 10 k (reg_write COMMAND_STATUS CS_HCR s)))))
             (trace s')) = []"
    using \<open>s' = _\<close>
    by (simp add: hc_start_tail_trace finished_batches_append finished_batches_replicate)
  ultimately show ?thesis by blast
qed

text \<open>The walk changes the pending set and the trace and nothing else.\<close>

lemma hc_interrupt_walk_frame:
  "hc_interrupt_walk c xs s =
     s\<lparr>pending_batches := pending_batches (hc_interrupt_walk c xs s),
       trace := trace (hc_interrupt_walk c xs s)\<rparr>"
proof (induction xs arbitrary: s)
  case Nil
  show ?case by simp
next
  case (Cons b rest)
  let ?s = "if c b then usb_transfer_batch_finish b (list_remove b s) else s"
  have "hc_interrupt_walk c (b # rest) s = hc_interrupt_walk c rest ?s" by simp
  also have "\<dots> = ?s\<lparr>pending_batches := pending_batches (hc_interrupt_walk c rest ?s),
       trace := trace (hc_interrupt_walk c rest ?s)\<rparr>"
    by (rule Cons.IH)
  also have "\<dots> = s\<lparr>pending_batches := pending_batches (hc_interrupt_walk c rest ?s),
       trace := trace (hc_interrupt_walk c rest ?s)\<rparr>"
    by (simp add: usb_transfer_batch_finish_def list_remove_def log_event_def)
  finally show ?case by simp
qed

lemma hc_interrupt_reaped_eq:
  assumes wdh: "status AND I_WDH \<noteq> 0"
  shows "hc_interrupt_reaped c s status =
     s\<lparr>guard := False,
       pending_batches := filter (\<lambda>b. \<not> c b) (pending_batches s),
       trace := trace s @ (if status AND I_RHSC \<noteq> 0 then [Rh_Interrupt] else [])
                  @ [Mutex_Lock] @ map Batch_Finish (filter c (pending_batches s))
                  @ [Mutex_Unlock]\<rparr>"
proof -
  let ?s1 = "if status AND I_RHSC \<noteq> 0 then rh_interrupt s else s"
  let ?l = "fibril_mutex_lock ?s1"
  let ?w = "hc_interrupt_walk c (pending_batches ?l) ?l"
  have p: "pending_batches ?l = pending_batches s"
    by (simp add: fibril_mutex_lock_def rh_interrupt_def log_event_def)
  have wp: "pending_batches ?w = filter (\<lambda>b. \<not> c b) (pending_batches s)"
    using hc_interrupt_walk_pending[of c ?l] unfolding p .
  have wt: "trace ?w = trace s @ (if status AND I_RHSC \<noteq> 0 then [Rh_Interrupt] else [])
                  @ [Mutex_Lock] @ map Batch_Finish (filter c (pending_batches s))"
    unfolding hc_interrupt_walk_trace p
    by (simp add: fibril_mutex_lock_def rh_interrupt_def log_event_def)
  have "hc_interrupt_reaped c s status = fibril_mutex_unlock ?w"
    using wdh by (simp add: hc_interrupt_reaped_def Let_def)
  also have "?w = ?l\<lparr>pending_batches := pending_batches ?w, trace := trace ?w\<rparr>"
    by (rule hc_interrupt_walk_frame)
  finally have "hc_interrupt_reaped c s status =
      fibril_mutex_unlock (?l\<lparr>pending_batches := pending_batches ?w, trace := trace ?w\<rparr>)" .
  then show ?thesis unfolding wp wt
    by (simp add: fibril_mutex_unlock_def fibril_mutex_lock_def rh_interrupt_def log_event_def)
qed

text \<open>
  Claim C5. For every pending-batch set and every status with the WDH bit set,
  \<^verbatim>\<open>hc_interrupt\<close> walks the whole set with the guard held: the result of the walk is the
  instance with the guard released, with exactly the batches whose completion predicate
  fails left in the set, in their original order, and with the finish callbacks of exactly
  the batches whose predicate holds recorded, in the order of the set, between the lock
  and the unlock of the guard. With UE clear the call returns this instance. With UE set
  the call is \<^verbatim>\<open>hc_start\<close> on this instance: the reaping is done before the restart, a
  restart that returns changes neither the set nor the callbacks made, and the restart
  returns when the controller reads the reset bit clear from some time on.
\<close>

theorem hc_interrupt_wdh_reaps:
  assumes wdh: "status AND I_WDH \<noteq> 0"
  shows "\<exists>reaped.
      reaped = instance
        \<lparr>guard := False,
         pending_batches := filter (\<lambda>b. \<not> batch_is_complete b) (pending_batches instance),
         trace := trace instance @ (if status AND I_RHSC \<noteq> 0 then [Rh_Interrupt] else [])
                    @ [Mutex_Lock]
                    @ map Batch_Finish (filter batch_is_complete (pending_batches instance))
                    @ [Mutex_Unlock]\<rparr>
      \<and> (status AND I_UE = 0 \<longrightarrow>
            hc_interrupt dev batch_is_complete instance status = Some reaped)
      \<and> (status AND I_UE \<noteq> 0 \<longrightarrow>
            hc_interrupt dev batch_is_complete instance status = hc_start dev reaped)
      \<and> (\<forall>s'. hc_interrupt dev batch_is_complete instance status = Some s' \<longrightarrow>
            pending_batches s' = pending_batches reaped
            \<and> (\<exists>post. trace s' = trace reaped @ post \<and> finished_batches post = [])
            \<and> finished_batches (trace s')
                = finished_batches (trace instance)
                    @ filter batch_is_complete (pending_batches instance))
      \<and> ((\<exists>T. \<forall>t r. T \<le> t \<longrightarrow> dev t r COMMAND_STATUS AND CS_HCR = 0) \<longrightarrow>
            (\<exists>s'. hc_interrupt dev batch_is_complete instance status = Some s'))"
proof -
  let ?R = "instance
        \<lparr>guard := False,
         pending_batches := filter (\<lambda>b. \<not> batch_is_complete b) (pending_batches instance),
         trace := trace instance @ (if status AND I_RHSC \<noteq> 0 then [Rh_Interrupt] else [])
                    @ [Mutex_Lock]
                    @ map Batch_Finish (filter batch_is_complete (pending_batches instance))
                    @ [Mutex_Unlock]\<rparr>"
  have r: "hc_interrupt_reaped batch_is_complete instance status = ?R"
    by (rule hc_interrupt_reaped_eq[OF wdh])
  have u: "hc_interrupt dev batch_is_complete instance status =
     (if status AND I_UE \<noteq> 0 then hc_start dev ?R else Some ?R)"
    unfolding hc_interrupt_unfold[OF wdh_not_sf[OF wdh]] r ..
  have fr: "finished_batches (trace ?R)
      = finished_batches (trace instance) @ filter batch_is_complete (pending_batches instance)"
    by (simp add: finished_batches_append finished_batches_map)
  have a: "status AND I_UE = 0 \<longrightarrow>
            hc_interrupt dev batch_is_complete instance status = Some ?R"
    using u by simp
  have b: "status AND I_UE \<noteq> 0 \<longrightarrow>
            hc_interrupt dev batch_is_complete instance status = hc_start dev ?R"
    using u by simp
  have c: "\<forall>s'. hc_interrupt dev batch_is_complete instance status = Some s' \<longrightarrow>
            pending_batches s' = pending_batches ?R
            \<and> (\<exists>post. trace s' = trace ?R @ post \<and> finished_batches post = [])
            \<and> finished_batches (trace s')
                = finished_batches (trace instance)
                    @ filter batch_is_complete (pending_batches instance)"
  proof (intro allI impI)
    fix s' assume s': "hc_interrupt dev batch_is_complete instance status = Some s'"
    show "pending_batches s' = pending_batches ?R
            \<and> (\<exists>post. trace s' = trace ?R @ post \<and> finished_batches post = [])
            \<and> finished_batches (trace s')
                = finished_batches (trace instance)
                    @ filter batch_is_complete (pending_batches instance)"
    proof (cases "status AND I_UE \<noteq> 0")
      case True
      with s' u have st: "hc_start dev ?R = Some s'" by simp
      from hc_start_trace_extends[OF st] obtain post where
        post: "trace s' = trace ?R @ post" "finished_batches post = []" by blast
      have "finished_batches (trace s') = finished_batches (trace ?R)"
        by (rule hc_start_finished[OF st])
      with hc_start_pending[OF st] post fr show ?thesis by auto
    next
      case False
      with s' u have "s' = ?R" by simp
      moreover have "trace ?R = trace ?R @ []" "finished_batches [] = []" by simp_all
      ultimately show ?thesis using fr by blast
    qed
  qed
  have d: "(\<exists>T. \<forall>t r. T \<le> t \<longrightarrow> dev t r COMMAND_STATUS AND CS_HCR = 0) \<longrightarrow>
            (\<exists>s'. hc_interrupt dev batch_is_complete instance status = Some s')"
  proof
    assume "\<exists>T. \<forall>t r. T \<le> t \<longrightarrow> dev t r COMMAND_STATUS AND CS_HCR = 0"
    then obtain T where "\<And>t r. T \<le> t \<Longrightarrow> dev t r COMMAND_STATUS AND CS_HCR = 0" by blast
    then have "\<exists>s'. hc_start dev ?R = Some s'" by (rule hc_start_returns)
    then show "\<exists>s'. hc_interrupt dev batch_is_complete instance status = Some s'"
      unfolding u by simp
  qed
  from a b c d show ?thesis by blast
qed

theorem hc_interrupt_wdh_reaps_witness:
  "hc_interrupt example_device (\<lambda>b. batch_id b = 1) example_pending I_WDH
     = Some (example_pending
               \<lparr>guard := False, pending_batches := [example_batch2],
                trace := [Mutex_Lock, Batch_Finish example_batch1, Mutex_Unlock]\<rparr>)
   \<and> (\<exists>s'. hc_interrupt example_device (\<lambda>b. batch_id b = 1) example_pending (I_WDH OR I_UE)
              = Some s'
          \<and> pending_batches s' = [example_batch2]
          \<and> finished_batches (trace s') = [example_batch1])"
proof -
  have w: "I_WDH AND I_WDH \<noteq> 0" "(I_WDH OR I_UE) AND I_WDH \<noteq> 0"
    by (simp_all add: I_WDH_def I_UE_def)
  have nu: "I_WDH AND I_UE = 0" "I_WDH AND I_RHSC = 0"
    by (simp_all add: I_WDH_def I_UE_def I_RHSC_def)
  have ev: "\<exists>T. \<forall>t r. T \<le> t \<longrightarrow> example_device t r COMMAND_STATUS AND CS_HCR = 0"
    using example_device_resets by blast
  have e: "pending_batches example_pending = [example_batch1, example_batch2]"
    "trace example_pending = []" "batch_id example_batch1 = 1" "batch_id example_batch2 \<noteq> 1"
    by (simp_all add: example_pending_def example_hc_def example_batch1_def example_batch2_def)
  from hc_interrupt_wdh_reaps[OF w(1), of "example_pending" "\<lambda>b. batch_id b = 1" example_device]
  have 1: "hc_interrupt example_device (\<lambda>b. batch_id b = 1) example_pending I_WDH
     = Some (example_pending
               \<lparr>guard := False, pending_batches := [example_batch2],
                trace := [Mutex_Lock, Batch_Finish example_batch1, Mutex_Unlock]\<rparr>)"
    using nu e by simp
  from hc_interrupt_wdh_reaps[OF w(2), of "example_pending" "\<lambda>b. batch_id b = 1" example_device]
    ev
  have 2: "\<exists>s'. hc_interrupt example_device (\<lambda>b. batch_id b = 1) example_pending (I_WDH OR I_UE)
              = Some s'
          \<and> pending_batches s' = [example_batch2]
          \<and> finished_batches (trace s') = [example_batch1]"
    using e by auto
  from 1 2 show ?thesis by blast
qed

text \<open>
  Claim C10. For a status with UE set and WDH clear, a call of \<^verbatim>\<open>hc_interrupt\<close> that
  returns (it re-runs \<^verbatim>\<open>hc_start\<close>) leaves the pending-batch set as it was and calls no
  finish callback.
\<close>

theorem hc_interrupt_ue_keeps_pending:
  assumes ue: "status AND I_UE \<noteq> 0"
    and nowdh: "status AND I_WDH = 0"
    and ret: "hc_interrupt dev batch_is_complete instance status = Some s'"
  shows "pending_batches s' = pending_batches instance
       \<and> finished_batches (trace s') = finished_batches (trace instance)"
proof -
  let ?r = "hc_interrupt_reaped batch_is_complete instance status"
  from ret ue have st: "hc_start dev ?r = Some s'"
    by (simp add: hc_interrupt_unfold[OF ue_not_sf[OF ue]])
  from hc_start_pending[OF st] hc_start_finished[OF st]
    hc_interrupt_reaped_no_wdh[OF nowdh, of batch_is_complete "instance"]
  show ?thesis by simp
qed

text \<open>The restart returns when the controller reads the reset bit clear from some time
  on.\<close>

lemma hc_interrupt_ue_returns:
  assumes ue: "status AND I_UE \<noteq> 0"
    and ev: "\<And>t r. T \<le> t \<Longrightarrow> dev t r COMMAND_STATUS AND CS_HCR = 0"
  shows "\<exists>s'. hc_interrupt dev c s status = Some s'"
  using hc_start_returns[of T dev, OF ev] ue
  by (simp add: hc_interrupt_unfold[OF ue_not_sf[OF ue]])

theorem hc_interrupt_ue_keeps_pending_witness:
  "\<exists>s'. hc_interrupt example_device (\<lambda>b. True) example_pending I_UE = Some s'
     \<and> pending_batches s' = [example_batch1, example_batch2]
     \<and> finished_batches (trace s') = []"
proof -
  have ue: "I_UE AND I_UE \<noteq> 0" by (simp add: I_UE_def)
  have nw: "I_UE AND I_WDH = 0" by (simp add: I_WDH_def I_UE_def)
  have "\<exists>s'. hc_interrupt example_device (\<lambda>b. True) example_pending I_UE = Some s'"
    by (rule hc_interrupt_ue_returns[of I_UE 0 example_device, OF ue]) (rule example_device_resets)
  then obtain s' where
    s': "hc_interrupt example_device (\<lambda>b. True) example_pending I_UE = Some s'"
    by blast
  from hc_interrupt_ue_keeps_pending[OF ue nw s'] s' show ?thesis
    by (simp add: example_pending_def example_hc_def)
qed

subsection \<open>Scheduling\<close>

text \<open>
  Claim C9. \<^verbatim>\<open>hc_schedule\<close> is a total function that returns \<open>EOK\<close> for every batch. A
  batch addressed to the root hub is handed to the root hub and nothing else happens: the
  pending set, the registers and the guard are untouched. Any other batch is appended to
  the pending set and committed under the guard, and the control-list-filled bit (control
  transfers) or the bulk-list-filled bit (bulk transfers) is set in the command/status
  register; for the periodic types no register is written.
\<close>

theorem hc_schedule_total:
  "fst (hc_schedule instance batch) = EOK
   \<and> (ep_address (batch_ep batch) = rh_address instance \<longrightarrow>
        snd (hc_schedule instance batch)
          = instance\<lparr>trace := trace instance @ [Rh_Request batch]\<rparr>)
   \<and> (ep_address (batch_ep batch) \<noteq> rh_address instance \<longrightarrow>
        pending_batches (snd (hc_schedule instance batch)) = pending_batches instance @ [batch]
        \<and> trace (snd (hc_schedule instance batch))
            = trace instance @ [Mutex_Lock, Batch_Commit batch]
                @ (case transfer_type (batch_ep batch) of
                     USB_TRANSFER_CONTROL \<Rightarrow>
                       [Reg_Write COMMAND_STATUS (reg_read COMMAND_STATUS instance OR CS_CLF)]
                   | USB_TRANSFER_BULK \<Rightarrow>
                       [Reg_Write COMMAND_STATUS (reg_read COMMAND_STATUS instance OR CS_BLF)]
                   | _ \<Rightarrow> [])
                @ [Mutex_Unlock]
        \<and> registers (snd (hc_schedule instance batch))
            = (case transfer_type (batch_ep batch) of
                 USB_TRANSFER_CONTROL \<Rightarrow>
                   (registers instance)
                     (COMMAND_STATUS := reg_read COMMAND_STATUS instance OR CS_CLF)
               | USB_TRANSFER_BULK \<Rightarrow>
                   (registers instance)
                     (COMMAND_STATUS := reg_read COMMAND_STATUS instance OR CS_BLF)
               | _ \<Rightarrow> registers instance))"
  by (simp add: hc_schedule_def rh_request_def primitive_defs fibril_mutex_lock_def
      fibril_mutex_unlock_def list_append_def batch_commit_def
      split: usb_transfer_type_t.splits)

theorem hc_schedule_total_witness:
  "fst (hc_schedule example_hc example_batch1) = EOK
   \<and> pending_batches (snd (hc_schedule example_hc example_batch1)) = [example_batch1]
   \<and> registers (snd (hc_schedule example_hc example_batch1)) COMMAND_STATUS = 2
   \<and> snd (hc_schedule example_hc (example_batch1\<lparr>batch_ep := (batch_ep example_batch1)\<lparr>ep_address := 1\<rparr>\<rparr>))
       = example_hc\<lparr>trace := [Rh_Request (example_batch1\<lparr>batch_ep := (batch_ep example_batch1)\<lparr>ep_address := 1\<rparr>\<rparr>)]\<rparr>"
  using hc_schedule_total[of example_hc example_batch1]
    hc_schedule_total[of example_hc "example_batch1\<lparr>batch_ep := (batch_ep example_batch1)\<lparr>ep_address := 1\<rparr>\<rparr>"]
  by (simp add: example_hc_def example_batch1_def example_registers_def reg_read_def CS_CLF_def)

subsection \<open>Endpoint addition, removal and hub registration\<close>

lemma find_append_None:
  "find P xs = None \<Longrightarrow> find P (xs @ ys) = find P ys"
  by (induction xs) (simp_all split: if_splits)

lemma find_None_notin: "find P xs = None \<Longrightarrow> P x \<Longrightarrow> x \<notin> set xs"
  by (induction xs) (auto split: if_splits)

lemmas collaborator_defs = endpoint_get_def endpoint_destroy_def hcd_endpoint_assign_def
  hcd_endpoint_get_def hcd_endpoint_clear_def usb_endpoint_manager_register_ep_def
  usb_endpoint_manager_get_ep_def usb_endpoint_manager_unregister_ep_def
  device_keeper_get_free_address_def usb_device_keeper_bind_def usb_device_keeper_release_def
  endpoint_list_add_ep_def endpoint_list_remove_ep_def fibril_mutex_lock_def
  fibril_mutex_unlock_def

lemma hc_add_endpoint_failure:
  "add_failure env = Some e \<Longrightarrow>
   hc_add_endpoint env s address endpoint speed type direction mps data_size interval = (e, s)"
  by (auto simp add: add_failure_def hc_add_endpoint_def collaborator_defs
      split: option.splits if_splits)

lemma add_failure_not_EOK: "add_failure env = Some e \<Longrightarrow> e \<noteq> EOK"
  by (auto simp add: add_failure_def ENOMEM_def EOK_def split: if_splits)

lemma enqueue_hcd_ep_frame:
  "ep_manager (enqueue_hcd_ep ep h s) = ep_manager s"
  "ep_heap (enqueue_hcd_ep ep h s) = ep_heap s"
  "hcd_heap (enqueue_hcd_ep ep h s) = hcd_heap s"
  "manager (enqueue_hcd_ep ep h s) = manager s"
  by (simp_all add: enqueue_hcd_ep_def primitive_defs endpoint_list_add_ep_def
      split: usb_transfer_type_t.splits)

lemma dequeue_hcd_ep_frame:
  "ep_manager (dequeue_hcd_ep ep h s) = ep_manager s"
  "ep_heap (dequeue_hcd_ep ep h s) = ep_heap s"
  "hcd_heap (dequeue_hcd_ep ep h s) = hcd_heap s"
  "manager (dequeue_hcd_ep ep h s) = manager s"
  by (simp_all add: dequeue_hcd_ep_def primitive_defs endpoint_list_remove_ep_def
      split: usb_transfer_type_t.splits)

lemma hc_remove_endpoint_absent:
  assumes "find (ep_matches a e d) (ep_manager s) = None"
  shows "fst (hc_remove_endpoint s a e d) = ENOENT"
    and "ep_manager (snd (hc_remove_endpoint s a e d)) = ep_manager s"
    and "ep_heap (snd (hc_remove_endpoint s a e d)) = ep_heap s"
    and "hcd_heap (snd (hc_remove_endpoint s a e d)) = hcd_heap s"
    and "manager (snd (hc_remove_endpoint s a e d)) = manager s"
  using assms
  by (simp_all add: hc_remove_endpoint_def Let_def usb_endpoint_manager_get_ep_def
      fibril_mutex_lock_def fibril_mutex_unlock_def log_event_def)

lemma hc_remove_endpoint_last:
  assumes old: "find (ep_matches a e d) old = None"
    and m: "ep_matches a e d ep"
    and reg: "ep_manager s = old @ [ep]"
    and h: "hc_data ep = Some h"
  shows "ep_manager (snd (hc_remove_endpoint s a e d)) = old"
    and "ep_heap (snd (hc_remove_endpoint s a e d)) = remove1 (ep_ptr ep) (ep_heap s)"
    and "hcd_heap (snd (hc_remove_endpoint s a e d)) = remove1 h (hcd_heap s)"
    and "manager (snd (hc_remove_endpoint s a e d)) = manager s"
proof -
  have f: "find (ep_matches a e d) (old @ [ep]) = Some ep"
    using old m by (simp add: find_append_None)
  have n: "ep \<notin> set old" using find_None_notin[OF old m] .
  let ?s1 = "fibril_mutex_lock s"
  let ?s2 = "hcd_endpoint_clear ep (dequeue_hcd_ep ep h ?s1)"
  have g: "usb_endpoint_manager_get_ep ?s1 a e d = Some ep"
    using f reg by (simp add: usb_endpoint_manager_get_ep_def fibril_mutex_lock_def log_event_def)
  have r: "hc_remove_endpoint s a e d =
     (case usb_endpoint_manager_unregister_ep a e d ?s2 of
                (ret, s3) \<Rightarrow> (ret, fibril_mutex_unlock s3))"
    using g h by (simp add: hc_remove_endpoint_def Let_def hcd_endpoint_get_def)
  have m2: "ep_manager ?s2 = old @ [ep]"
    using reg h by (simp add: hcd_endpoint_clear_def dequeue_hcd_ep_frame fibril_mutex_lock_def log_event_def)
  have u: "usb_endpoint_manager_unregister_ep a e d ?s2
      = (EOK, endpoint_destroy ep (?s2\<lparr>ep_manager := old\<rparr>))"
    using f n by (simp add: usb_endpoint_manager_unregister_ep_def m2 remove1_append)
  have s': "snd (hc_remove_endpoint s a e d) = fibril_mutex_unlock (endpoint_destroy ep (?s2\<lparr>ep_manager := old\<rparr>))"
    unfolding r u by simp
  show "ep_manager (snd (hc_remove_endpoint s a e d)) = old"
    unfolding s' by (simp add: fibril_mutex_unlock_def log_event_def endpoint_destroy_def)
  show "ep_heap (snd (hc_remove_endpoint s a e d)) = remove1 (ep_ptr ep) (ep_heap s)"
    unfolding s' using h
    by (simp add: fibril_mutex_unlock_def log_event_def endpoint_destroy_def
        hcd_endpoint_clear_def dequeue_hcd_ep_frame fibril_mutex_lock_def)
  show "hcd_heap (snd (hc_remove_endpoint s a e d)) = remove1 h (hcd_heap s)"
    unfolding s' using h
    by (simp add: fibril_mutex_unlock_def log_event_def endpoint_destroy_def
        hcd_endpoint_clear_def dequeue_hcd_ep_frame fibril_mutex_lock_def)
  show "manager (snd (hc_remove_endpoint s a e d)) = manager s"
    unfolding s' using h
    by (simp add: fibril_mutex_unlock_def log_event_def endpoint_destroy_def
        hcd_endpoint_clear_def dequeue_hcd_ep_frame fibril_mutex_lock_def)
qed

lemma hc_add_endpoint_success:
  assumes "add_failure env = None"
  shows "\<exists>p h. hc_add_endpoint env s a e sp t d mps data_size interval =
     (EOK, enqueue_hcd_ep
        \<lparr>ep_ptr = p, ep_address = a, ep_endpoint = e, ep_direction = d, transfer_type = t,
         ep_speed = sp, max_packet_size = mps, hc_data = Some h\<rparr> h
        (s\<lparr>ep_heap := p # ep_heap s, hcd_heap := h # hcd_heap s,
           ep_manager := ep_manager s @
             [\<lparr>ep_ptr = p, ep_address = a, ep_endpoint = e, ep_direction = d, transfer_type = t,
         ep_speed = sp, max_packet_size = mps, hc_data = Some h\<rparr>]\<rparr>))"
  using assms
  by (auto simp add: add_failure_def hc_add_endpoint_def endpoint_get_def hcd_endpoint_assign_def
      usb_endpoint_manager_register_ep_def split: if_splits)

lemma CHECK_RET_RELEASE_manager:
  "a \<notin> fst ` set (manager (CHECK_RET_RELEASE a s))"
  by (auto simp add: CHECK_RET_RELEASE_def usb_device_keeper_release_def)

lemma CHECK_RET_RELEASE_frame:
  "ep_manager (CHECK_RET_RELEASE a s) = ep_manager (snd (hc_remove_endpoint s a 0 USB_DIRECTION_BOTH))"
  "ep_heap (CHECK_RET_RELEASE a s) = ep_heap (snd (hc_remove_endpoint s a 0 USB_DIRECTION_BOTH))"
  "hcd_heap (CHECK_RET_RELEASE a s) = hcd_heap (snd (hc_remove_endpoint s a 0 USB_DIRECTION_BOTH))"
  by (simp_all add: CHECK_RET_RELEASE_def usb_device_keeper_release_def)

lemma hc_remove_endpoint_present:
  assumes g: "usb_endpoint_manager_get_ep s a e d = Some ep"
    and h: "hc_data ep = Some h"
  shows "snd (hc_remove_endpoint s a e d) =
     fibril_mutex_unlock
       (snd (usb_endpoint_manager_unregister_ep a e d
          (hcd_endpoint_clear ep (dequeue_hcd_ep ep h (fibril_mutex_lock s)))))"
proof -
  have "usb_endpoint_manager_get_ep (fibril_mutex_lock s) a e d = Some ep"
    using g by (simp add: usb_endpoint_manager_get_ep_def fibril_mutex_lock_def log_event_def)
  then show ?thesis using h
    by (simp add: hc_remove_endpoint_def Let_def hcd_endpoint_get_def split: prod.splits)
qed

lemma enqueue_hcd_ep_lists:
  "lists (enqueue_hcd_ep ep h s) =
     (lists s)(transfer_type ep :=
        (lists s (transfer_type ep))
          \<lparr>endpoint_list := endpoint_list (lists s (transfer_type ep)) @ [h]\<rparr>)"
  "pending_batches (enqueue_hcd_ep ep h s) = pending_batches s"
  by (simp_all add: enqueue_hcd_ep_def primitive_defs endpoint_list_add_ep_def
      split: usb_transfer_type_t.splits)

lemma dequeue_hcd_ep_lists:
  "lists (dequeue_hcd_ep ep h s) =
     (lists s)(transfer_type ep :=
        (lists s (transfer_type ep))
          \<lparr>endpoint_list := remove1 h (endpoint_list (lists s (transfer_type ep)))\<rparr>)"
  "pending_batches (dequeue_hcd_ep ep h s) = pending_batches s"
  by (simp_all add: dequeue_hcd_ep_def primitive_defs endpoint_list_remove_ep_def
      split: usb_transfer_type_t.splits)

lemma hc_remove_endpoint_absent_lists:
  assumes "find (ep_matches a e d) (ep_manager s) = None"
  shows "lists (snd (hc_remove_endpoint s a e d)) = lists s"
    and "pending_batches (snd (hc_remove_endpoint s a e d)) = pending_batches s"
  using assms
  by (simp_all add: hc_remove_endpoint_def Let_def usb_endpoint_manager_get_ep_def
      fibril_mutex_lock_def fibril_mutex_unlock_def log_event_def)

lemma unregister_ep_lists:
  "lists (snd (usb_endpoint_manager_unregister_ep a e d s)) = lists s"
  "pending_batches (snd (usb_endpoint_manager_unregister_ep a e d s)) = pending_batches s"
  by (simp_all add: usb_endpoint_manager_unregister_ep_def endpoint_destroy_def
      split: option.splits)

lemma hcd_endpoint_clear_lists:
  "lists (hcd_endpoint_clear ep s) = lists s"
  "pending_batches (hcd_endpoint_clear ep s) = pending_batches s"
  by (simp_all add: hcd_endpoint_clear_def split: option.splits)

lemma hc_remove_endpoint_present_lists:
  assumes g: "usb_endpoint_manager_get_ep s a e d = Some ep"
    and h: "hc_data ep = Some h"
  shows "lists (snd (hc_remove_endpoint s a e d)) =
     (lists s)(transfer_type ep :=
        (lists s (transfer_type ep))
          \<lparr>endpoint_list := remove1 h (endpoint_list (lists s (transfer_type ep)))\<rparr>)"
    and "pending_batches (snd (hc_remove_endpoint s a e d)) = pending_batches s"
  unfolding hc_remove_endpoint_present[OF g h]
  by (simp_all add: fibril_mutex_unlock_def log_event_def unregister_ep_lists
      hcd_endpoint_clear_lists dequeue_hcd_ep_lists fibril_mutex_lock_def)

lemma release_after_bind:
  "a \<notin> fst ` set m \<Longrightarrow>
   filter (\<lambda>(a', h). a' \<noteq> a)
     (map (\<lambda>(a', h). if a' = a then (a', Some handle) else (a', h)) m) = m"
  by (induction m) auto

lemma CHECK_RET_RELEASE_lists:
  "lists (CHECK_RET_RELEASE a s) = lists (snd (hc_remove_endpoint s a 0 USB_DIRECTION_BOTH))"
  "pending_batches (CHECK_RET_RELEASE a s)
     = pending_batches (snd (hc_remove_endpoint s a 0 USB_DIRECTION_BOTH))"
  "manager (CHECK_RET_RELEASE a s)
     = filter (\<lambda>(a', h). a' \<noteq> a) (manager (snd (hc_remove_endpoint s a 0 USB_DIRECTION_BOTH)))"
  by (simp_all add: CHECK_RET_RELEASE_def usb_device_keeper_release_def)

lemma hc_add_endpoint_success_answers:
  assumes "add_failure env = None"
  shows "\<exists>p h. endpoint_get_answer env = Some p \<and> hcd_endpoint_assign_answer env = Some h \<and>
     hc_add_endpoint env s a e sp t d mps data_size interval =
     (EOK, enqueue_hcd_ep
        \<lparr>ep_ptr = p, ep_address = a, ep_endpoint = e, ep_direction = d, transfer_type = t,
         ep_speed = sp, max_packet_size = mps, hc_data = Some h\<rparr> h
        (s\<lparr>ep_heap := p # ep_heap s, hcd_heap := h # hcd_heap s,
           ep_manager := ep_manager s @
             [\<lparr>ep_ptr = p, ep_address = a, ep_endpoint = e, ep_direction = d, transfer_type = t,
         ep_speed = sp, max_packet_size = mps, hc_data = Some h\<rparr>]\<rparr>))"
  using assms
  by (auto simp add: add_failure_def hc_add_endpoint_def endpoint_get_def hcd_endpoint_assign_def
      usb_endpoint_manager_register_ep_def split: if_splits)

lemma hc_register_hub_rollback:
  assumes pos: "0 < free_address_answer henv"
    and fresh: "usb_endpoint_manager_get_ep s (free_address_answer henv) 0 USB_DIRECTION_BOTH = None"
    and fail: "hub_failure henv = Some e"
  shows "fst (hc_register_hub henv s handle) = e \<and> e \<noteq> EOK
       \<and> ep_manager (snd (hc_register_hub henv s handle)) = ep_manager s
       \<and> ep_heap (snd (hc_register_hub henv s handle)) = ep_heap s
       \<and> hcd_heap (snd (hc_register_hub henv s handle)) = hcd_heap s
       \<and> pending_batches (snd (hc_register_hub henv s handle)) = pending_batches s
       \<and> ((\<forall>h. hcd_endpoint_assign_answer (add_endpoint_answers henv) = Some h \<longrightarrow>
              h \<notin> set (endpoint_list (lists s USB_TRANSFER_CONTROL)))
            \<longrightarrow> lists (snd (hc_register_hub henv s handle)) = lists s)
       \<and> free_address_answer henv \<notin> fst ` set (manager (snd (hc_register_hub henv s handle)))
       \<and> (free_address_answer henv \<notin> fst ` set (manager s)
            \<longrightarrow> manager (snd (hc_register_hub henv s handle)) = manager s)"
proof -
  let ?a = "free_address_answer henv"
  let ?s1 = "usb_device_keeper_bind ?a handle
               (s\<lparr>manager := (?a, None) # manager s, rh_address := ?a\<rparr>)"
  let ?add = "hc_add_endpoint (add_endpoint_answers henv) ?s1 ?a 0 USB_SPEED_FULL
                       USB_TRANSFER_CONTROL USB_DIRECTION_BOTH 64 0 0"
  have hub: "hc_register_hub henv s handle =
     (if fst ?add \<noteq> EOK then (fst ?add, CHECK_RET_RELEASE ?a (snd ?add))
      else if add_match_id_answer henv \<noteq> EOK
      then (add_match_id_answer henv, CHECK_RET_RELEASE ?a (snd ?add))
      else if bind_answer henv \<noteq> EOK
      then (bind_answer henv, CHECK_RET_RELEASE ?a (snd ?add))
      else (EOK, snd ?add))"
    using pos
    by (simp add: hc_register_hub_def device_keeper_get_free_address_def Let_def
        split: prod.splits)
  have s1: "ep_manager ?s1 = ep_manager s" "ep_heap ?s1 = ep_heap s" "hcd_heap ?s1 = hcd_heap s"
    "lists ?s1 = lists s" "pending_batches ?s1 = pending_batches s"
    by (simp_all add: usb_device_keeper_bind_def)
  have m1: "manager ?s1 =
      map (\<lambda>(a', h). if a' = ?a then (a', Some handle) else (a', h)) ((?a, None) # manager s)"
    by (simp add: usb_device_keeper_bind_def)
  have rel: "?a \<notin> fst ` set (manager s) \<Longrightarrow>
      filter (\<lambda>(a', h). a' \<noteq> ?a) (manager ?s1) = manager s"
    unfolding m1 using release_after_bind[of ?a "manager s" handle] by simp
  from fresh have old: "find (ep_matches ?a 0 USB_DIRECTION_BOTH) (ep_manager s) = None"
    by (simp add: usb_endpoint_manager_get_ep_def)
  show ?thesis
  proof (cases "add_failure (add_endpoint_answers henv)")
    case (Some e1)
    with fail have e: "e1 = e" by (simp add: hub_failure_def)
    have add: "?add = (e, ?s1)"
      using hc_add_endpoint_failure[OF Some] e by simp
    have ne: "e \<noteq> EOK" using add_failure_not_EOK[OF Some] e by simp
    have r: "hc_register_hub henv s handle = (e, CHECK_RET_RELEASE ?a ?s1)"
      unfolding hub add using ne by simp
    have old1: "find (ep_matches ?a 0 USB_DIRECTION_BOTH) (ep_manager ?s1) = None"
      using old s1(1) by simp
    let ?x = "CHECK_RET_RELEASE ?a ?s1"
    note ab = hc_remove_endpoint_absent[OF old1] hc_remove_endpoint_absent_lists[OF old1]
    have 1: "ep_manager ?x = ep_manager s" "ep_heap ?x = ep_heap s" "hcd_heap ?x = hcd_heap s"
      "pending_batches ?x = pending_batches s" "lists ?x = lists s"
      unfolding CHECK_RET_RELEASE_frame CHECK_RET_RELEASE_lists ab s1 by (rule refl)+
    have 2: "manager ?x = filter (\<lambda>(a', h). a' \<noteq> ?a) (manager ?s1)"
      unfolding CHECK_RET_RELEASE_lists ab ..
    have 3: "?a \<notin> fst ` set (manager s) \<longrightarrow> manager ?x = manager s"
      unfolding 2 using rel by blast
    show ?thesis
      unfolding r fst_conv snd_conv using ne 1 3 CHECK_RET_RELEASE_manager[of ?a ?s1]
      by blast
  next
    case None
    from hc_add_endpoint_success_answers[OF None, of ?s1 ?a 0 USB_SPEED_FULL USB_TRANSFER_CONTROL
        USB_DIRECTION_BOTH 64 0 0]
    obtain p h where hans: "hcd_endpoint_assign_answer (add_endpoint_answers henv) = Some h"
      and add: "?add =
     (EOK, enqueue_hcd_ep
        \<lparr>ep_ptr = p, ep_address = ?a, ep_endpoint = 0, ep_direction = USB_DIRECTION_BOTH,
         transfer_type = USB_TRANSFER_CONTROL,
         ep_speed = USB_SPEED_FULL, max_packet_size = 64, hc_data = Some h\<rparr> h
        (?s1\<lparr>ep_heap := p # ep_heap ?s1, hcd_heap := h # hcd_heap ?s1,
           ep_manager := ep_manager ?s1 @
             [\<lparr>ep_ptr = p, ep_address = ?a, ep_endpoint = 0, ep_direction = USB_DIRECTION_BOTH,
         transfer_type = USB_TRANSFER_CONTROL,
         ep_speed = USB_SPEED_FULL, max_packet_size = 64, hc_data = Some h\<rparr>]\<rparr>))"
      (is "_ = (EOK, ?s2)")
      by blast
    let ?ep = "\<lparr>ep_ptr = p, ep_address = ?a, ep_endpoint = 0, ep_direction = USB_DIRECTION_BOTH,
         transfer_type = USB_TRANSFER_CONTROL,
         ep_speed = USB_SPEED_FULL, max_packet_size = 64, hc_data = Some h\<rparr>"
    from fail None have ne: "e \<noteq> EOK"
      and e: "e = (if add_match_id_answer henv \<noteq> EOK then add_match_id_answer henv else bind_answer henv)"
      by (auto simp add: hub_failure_def split: if_splits)
    have r: "hc_register_hub henv s handle = (e, CHECK_RET_RELEASE ?a ?s2)"
      unfolding hub add using ne e by auto
    have m: "ep_matches ?a 0 USB_DIRECTION_BOTH ?ep" by (simp add: ep_matches_def)
    have reg: "ep_manager ?s2 = ep_manager s @ [?ep]"
      by (simp add: enqueue_hcd_ep_frame s1)
    have hd: "hc_data ?ep = Some h" by simp
    have g: "usb_endpoint_manager_get_ep ?s2 ?a 0 USB_DIRECTION_BOTH = Some ?ep"
      unfolding usb_endpoint_manager_get_ep_def reg using old m
      by (simp add: find_append_None)
    have heaps: "ep_heap ?s2 = p # ep_heap s" "hcd_heap ?s2 = h # hcd_heap s"
      by (simp_all add: enqueue_hcd_ep_frame s1)
    have man: "manager ?s2 = manager ?s1"
      by (simp add: enqueue_hcd_ep_frame)
    have pend: "pending_batches ?s2 = pending_batches s"
      by (simp add: enqueue_hcd_ep_lists s1)
    have l2: "lists (snd (hc_remove_endpoint ?s2 ?a 0 USB_DIRECTION_BOTH)) =
        (lists s)(USB_TRANSFER_CONTROL := (lists s USB_TRANSFER_CONTROL)
           \<lparr>endpoint_list :=
              remove1 h (endpoint_list (lists s USB_TRANSFER_CONTROL) @ [h])\<rparr>)"
      unfolding hc_remove_endpoint_present_lists(1)[OF g hd] enqueue_hcd_ep_lists
      by (simp add: usb_device_keeper_bind_def)
    have lists: "h \<notin> set (endpoint_list (lists s USB_TRANSFER_CONTROL)) \<Longrightarrow>
        lists (snd (hc_remove_endpoint ?s2 ?a 0 USB_DIRECTION_BOTH)) = lists s"
      unfolding l2 by (simp add: remove1_append)
    let ?x = "CHECK_RET_RELEASE ?a ?s2"
    note la = hc_remove_endpoint_last[OF old m reg hd]
    have 1: "ep_manager ?x = ep_manager s" "ep_heap ?x = ep_heap s" "hcd_heap ?x = hcd_heap s"
      "pending_batches ?x = pending_batches s"
      unfolding CHECK_RET_RELEASE_frame CHECK_RET_RELEASE_lists la
        hc_remove_endpoint_present_lists(2)[OF g hd] heaps pend
      by simp_all
    have 2: "manager ?x = filter (\<lambda>(a', h). a' \<noteq> ?a) (manager ?s1)"
      unfolding CHECK_RET_RELEASE_lists la man ..
    have 3: "?a \<notin> fst ` set (manager s) \<longrightarrow> manager ?x = manager s"
      unfolding 2 using rel by blast
    have 4: "(\<forall>h. hcd_endpoint_assign_answer (add_endpoint_answers henv) = Some h \<longrightarrow>
              h \<notin> set (endpoint_list (lists s USB_TRANSFER_CONTROL)))
            \<longrightarrow> lists ?x = lists s"
      unfolding CHECK_RET_RELEASE_lists using hans lists by blast
    show ?thesis
      unfolding r fst_conv snd_conv using ne 1 3 4 CHECK_RET_RELEASE_manager[of ?a ?s2]
      by blast
  qed
qed

text \<open>
  Claim C7. \<^verbatim>\<open>hc_add_endpoint\<close> is atomic on failure: when an allocation or the registration
  fails, it returns the error and the instance is exactly as before the call (what it
  allocated is released, no endpoint list is changed, no register is written). And when
  \<^verbatim>\<open>hc_register_hub\<close> has obtained an address on which no endpoint zero is registered yet,
  a failure of the endpoint addition, of the match-id addition or of the binding makes it
  return that error after the roll-back: the endpoint registry, the live endpoint records
  and hardware descriptors and the pending set are as before the call, the control list
  is as before the call (the descriptor allocated for the endpoint being a fresh one), and
  the address is released (the address keeper is as before the call when the address was
  free in it).
\<close>

theorem add_endpoint_and_register_hub_roll_back:
  "(add_failure env = Some e \<longrightarrow>
      e \<noteq> EOK
      \<and> hc_add_endpoint env instance address endpoint speed type direction mps data_size interval
          = (e, instance))
   \<and> (0 < free_address_answer henv
       \<and> usb_endpoint_manager_get_ep hc (free_address_answer henv) 0 USB_DIRECTION_BOTH = None
       \<and> hub_failure henv = Some e' \<longrightarrow>
      e' \<noteq> EOK
      \<and> fst (hc_register_hub henv hc hub_fun) = e'
      \<and> ep_manager (snd (hc_register_hub henv hc hub_fun)) = ep_manager hc
      \<and> usb_endpoint_manager_get_ep (snd (hc_register_hub henv hc hub_fun))
            (free_address_answer henv) 0 USB_DIRECTION_BOTH = None
      \<and> ep_heap (snd (hc_register_hub henv hc hub_fun)) = ep_heap hc
      \<and> hcd_heap (snd (hc_register_hub henv hc hub_fun)) = hcd_heap hc
      \<and> pending_batches (snd (hc_register_hub henv hc hub_fun)) = pending_batches hc
      \<and> ((\<forall>h. hcd_endpoint_assign_answer (add_endpoint_answers henv) = Some h \<longrightarrow>
              h \<notin> set (endpoint_list (lists hc USB_TRANSFER_CONTROL)))
           \<longrightarrow> lists (snd (hc_register_hub henv hc hub_fun)) = lists hc)
      \<and> free_address_answer henv
           \<notin> fst ` set (manager (snd (hc_register_hub henv hc hub_fun)))
      \<and> (free_address_answer henv \<notin> fst ` set (manager hc)
           \<longrightarrow> manager (snd (hc_register_hub henv hc hub_fun)) = manager hc))"
proof (intro conjI impI)
  assume "add_failure env = Some e"
  then show "e \<noteq> EOK"
    and "hc_add_endpoint env instance address endpoint speed type direction mps data_size interval
          = (e, instance)"
    by (rule add_failure_not_EOK, rule hc_add_endpoint_failure)
next
  assume a: "0 < free_address_answer henv
       \<and> usb_endpoint_manager_get_ep hc (free_address_answer henv) 0 USB_DIRECTION_BOTH = None
       \<and> hub_failure henv = Some e'"
  then have r: "fst (hc_register_hub henv hc hub_fun) = e' \<and> e' \<noteq> EOK
       \<and> ep_manager (snd (hc_register_hub henv hc hub_fun)) = ep_manager hc
       \<and> ep_heap (snd (hc_register_hub henv hc hub_fun)) = ep_heap hc
       \<and> hcd_heap (snd (hc_register_hub henv hc hub_fun)) = hcd_heap hc
       \<and> pending_batches (snd (hc_register_hub henv hc hub_fun)) = pending_batches hc
       \<and> ((\<forall>h. hcd_endpoint_assign_answer (add_endpoint_answers henv) = Some h \<longrightarrow>
              h \<notin> set (endpoint_list (lists hc USB_TRANSFER_CONTROL)))
            \<longrightarrow> lists (snd (hc_register_hub henv hc hub_fun)) = lists hc)
       \<and> free_address_answer henv \<notin> fst ` set (manager (snd (hc_register_hub henv hc hub_fun)))
       \<and> (free_address_answer henv \<notin> fst ` set (manager hc)
            \<longrightarrow> manager (snd (hc_register_hub henv hc hub_fun)) = manager hc)"
    using hc_register_hub_rollback[of henv hc e' hub_fun] by blast
  from r show "e' \<noteq> EOK" by blast
  from r show "fst (hc_register_hub henv hc hub_fun) = e'" by blast
  from r show "ep_manager (snd (hc_register_hub henv hc hub_fun)) = ep_manager hc" by blast
  from r a show "usb_endpoint_manager_get_ep (snd (hc_register_hub henv hc hub_fun))
            (free_address_answer henv) 0 USB_DIRECTION_BOTH = None"
    by (simp add: usb_endpoint_manager_get_ep_def)
  from r show "ep_heap (snd (hc_register_hub henv hc hub_fun)) = ep_heap hc" by blast
  from r show "hcd_heap (snd (hc_register_hub henv hc hub_fun)) = hcd_heap hc" by blast
  from r show "pending_batches (snd (hc_register_hub henv hc hub_fun)) = pending_batches hc"
    by blast
  from r show "free_address_answer henv
           \<notin> fst ` set (manager (snd (hc_register_hub henv hc hub_fun)))" by blast
  { assume "\<forall>h. hcd_endpoint_assign_answer (add_endpoint_answers henv) = Some h \<longrightarrow>
              h \<notin> set (endpoint_list (lists hc USB_TRANSFER_CONTROL))"
    with r show "lists (snd (hc_register_hub henv hc hub_fun)) = lists hc" by blast }
  { assume "free_address_answer henv \<notin> fst ` set (manager hc)"
    with r show "manager (snd (hc_register_hub henv hc hub_fun)) = manager hc" by blast }
qed

theorem add_endpoint_and_register_hub_roll_back_witness:
  "hc_add_endpoint example_add_no_descriptor example_hc 2 1 USB_SPEED_FULL USB_TRANSFER_BULK
      USB_DIRECTION_IN 64 512 0 = (ENOMEM, example_hc)
   \<and> fst (hc_register_hub example_hub_bind_fails example_hc 7) = - 5
   \<and> ep_manager (snd (hc_register_hub example_hub_bind_fails example_hc 7)) = []
   \<and> ep_heap (snd (hc_register_hub example_hub_bind_fails example_hc 7)) = []
   \<and> hcd_heap (snd (hc_register_hub example_hub_bind_fails example_hc 7)) = []
   \<and> endpoint_list (lists (snd (hc_register_hub example_hub_bind_fails example_hc 7))
        USB_TRANSFER_CONTROL) = []
   \<and> manager (snd (hc_register_hub example_hub_bind_fails example_hc 7)) = []"
proof -
  have a: "add_failure example_add_no_descriptor = Some ENOMEM"
    by (simp add: add_failure_def example_add_no_descriptor_def)
  have h: "hub_failure example_hub_bind_fails = Some (- 5)"
    by (simp add: hub_failure_def add_failure_def example_hub_bind_fails_def example_add_ok_def
        EOK_def)
  have f: "0 < free_address_answer example_hub_bind_fails
       \<and> usb_endpoint_manager_get_ep example_hc (free_address_answer example_hub_bind_fails) 0
            USB_DIRECTION_BOTH = None"
    by (simp add: example_hub_bind_fails_def usb_endpoint_manager_get_ep_def example_hc_def)
  have fr: "\<forall>h. hcd_endpoint_assign_answer (add_endpoint_answers example_hub_bind_fails) = Some h
              \<longrightarrow> h \<notin> set (endpoint_list (lists example_hc USB_TRANSFER_CONTROL))"
    "free_address_answer example_hub_bind_fails \<notin> fst ` set (manager example_hc)"
    by (simp_all add: example_hc_def)
  have e: "ep_manager example_hc = []" "ep_heap example_hc = []" "hcd_heap example_hc = []"
    "manager example_hc = []" "endpoint_list (lists example_hc USB_TRANSFER_CONTROL) = []"
    by (simp_all add: example_hc_def)
  from add_endpoint_and_register_hub_roll_back[of example_add_no_descriptor ENOMEM
      example_hc 2 1 USB_SPEED_FULL USB_TRANSFER_BULK USB_DIRECTION_IN 64 512 0
      example_hub_bind_fails example_hc "- 5" 7] a h f fr
  show ?thesis by (simp add: e)
qed

subsection \<open>Ownership handoff\<close>

lemma field_get_set:
  "k + m \<le> 32 \<Longrightarrow>
   drop_bit k (((x::u32) AND NOT (push_bit k (mask m))) OR push_bit k (v AND mask m)) AND mask m
     = v AND mask m"
  by (rule bit_word_eqI) (auto simp add: bit_simps)

lemma field_set_other_bit:
  "\<not> (k \<le> j \<and> j < k + m) \<Longrightarrow>
   (((x::u32) AND NOT (push_bit k (mask m))) OR push_bit k (v AND mask m)) AND push_bit j 1
     = x AND push_bit j 1"
  by (rule bit_word_eqI) (auto simp add: bit_simps)

lemma C_HCFS_MASK_mask: "C_HCFS_MASK = mask 2"
  by (simp add: C_HCFS_MASK_def mask_eq_exp_minus_1)

lemma C_HCFS_SET_control:
  "registers (C_HCFS_SET v s) CONTROL =
     (registers s CONTROL AND NOT (push_bit 6 (mask 2))) OR push_bit 6 (v AND mask 2)"
  unfolding C_HCFS_SET_def reg_read_def reg_write_def log_event_def
    C_HCFS_MASK_mask C_HCFS_SHIFT_def
  by simp

lemma C_HCFS_SET_get:
  "C_HCFS_GET (reg_read CONTROL (C_HCFS_SET v s)) = v AND C_HCFS_MASK"
  unfolding C_HCFS_GET_def reg_read_def C_HCFS_SET_control C_HCFS_MASK_mask C_HCFS_SHIFT_def
  by (rule field_get_set) simp

lemma C_HCFS_SET_ir:
  "reg_read CONTROL (C_HCFS_SET v s) AND C_IR = reg_read CONTROL s AND C_IR"
  unfolding reg_read_def C_HCFS_SET_control C_IR_def
  by (rule field_set_other_bit) simp

lemma smm_spin_Some:
  "hc_gain_control_smm_spin dev s = Some s' \<Longrightarrow>
     (\<exists>k. s' = usleeps dev 1000 k s) \<and> reg_read CONTROL s' AND C_IR = 0"
proof (induction rule: hc_gain_control_smm_spin.raw_induct[rotated 1, consumes 1])
  case (1 spin dev s s')
  show ?case
  proof (cases "reg_read CONTROL s AND C_IR = 0")
    case True
    with 1(2) have "s' = s" by simp
    with True show ?thesis by (auto intro!: exI[of _ 0])
  next
    case False
    with 1(2) have "spin dev (async_usleep dev 1000 s) = Some s'" by simp
    from 1(1)[OF this] obtain k where "s' = usleeps dev 1000 (Suc k) s"
      and "reg_read CONTROL s' AND C_IR = 0" by auto
    then show ?thesis by blast
  qed
qed

lemma smm_spin_done:
  "reg_read CONTROL s AND C_IR = 0 \<Longrightarrow> hc_gain_control_smm_spin dev s = Some s"
  by (subst hc_gain_control_smm_spin.simps) simp

lemma smm_spin_step:
  "reg_read CONTROL s AND C_IR \<noteq> 0 \<Longrightarrow>
     hc_gain_control_smm_spin dev s = hc_gain_control_smm_spin dev (async_usleep dev 1000 s)"
  by (subst hc_gain_control_smm_spin.simps) simp

text \<open>The wait for the firmware ends when the request, once set, stays pending until the
  firmware gives up the interrupt routing, and the firmware does so from some time on.\<close>

lemma smm_spin_returns:
  assumes persist: "\<And>t r. r COMMAND_STATUS AND CS_OCR \<noteq> 0 \<Longrightarrow> dev t r CONTROL AND C_IR \<noteq> 0
                      \<Longrightarrow> dev t r COMMAND_STATUS AND CS_OCR \<noteq> 0"
    and ev: "\<And>t r. T \<le> t \<Longrightarrow> r COMMAND_STATUS AND CS_OCR \<noteq> 0 \<Longrightarrow> dev t r CONTROL AND C_IR = 0"
    and ocr: "reg_read COMMAND_STATUS s AND CS_OCR \<noteq> 0"
  shows "\<exists>s'. hc_gain_control_smm_spin dev s = Some s'"
  using ocr
proof (induction "T - now s" arbitrary: s rule: less_induct)
  case less
  show ?case
  proof (cases "reg_read CONTROL s AND C_IR = 0")
    case True
    then show ?thesis by (simp add: smm_spin_done)
  next
    case False
    let ?s2 = "async_usleep dev 1000 s"
    have step: "hc_gain_control_smm_spin dev s = hc_gain_control_smm_spin dev ?s2"
      using False by (simp add: smm_spin_step)
    have regs2: "registers ?s2 = dev (now s + 1000) (registers s)" "now ?s2 = now s + 1000"
      by (simp_all add: primitive_defs)
    from less.prems have o: "registers s COMMAND_STATUS AND CS_OCR \<noteq> 0"
      by (simp add: reg_read_def)
    show ?thesis
    proof (cases "reg_read CONTROL ?s2 AND C_IR = 0")
      case True
      then show ?thesis using step by (simp add: smm_spin_done)
    next
      case ir2: False
      then have "dev (now s + 1000) (registers s) CONTROL AND C_IR \<noteq> 0"
        by (simp add: reg_read_def regs2)
      from persist[of "registers s" "now s + 1000", OF o this] have o2: "reg_read COMMAND_STATUS ?s2 AND CS_OCR \<noteq> 0"
        by (simp add: reg_read_def regs2)
      have "\<not> T \<le> now s + 1000"
      proof
        assume "T \<le> now s + 1000"
        from ev[of "now s + 1000" "registers s", OF this o] ir2 show False by (simp add: reg_read_def regs2)
      qed
      then have "T - now ?s2 < T - now s" by (simp add: regs2)
      from less.hyps[OF this o2] show ?thesis using step by simp
    qed
  qed
qed

lemma sleep_keeps_handed_over:
  assumes hcfs_kept: "\<And>t r. r CONTROL AND C_IR = 0 \<Longrightarrow>
                        C_HCFS_GET (dev t r CONTROL) = C_HCFS_GET (r CONTROL)"
    and ir_kept: "\<And>t r. r CONTROL AND C_IR = 0 \<Longrightarrow> dev t r CONTROL AND C_IR = 0"
    and h: "handed_over s"
  shows "handed_over (async_usleep dev us s)"
proof -
  from h have ir: "registers s CONTROL AND C_IR = 0" by (simp add: handed_over_def reg_read_def)
  from h hcfs_kept[of "registers s" "now s + us", OF ir] ir_kept[of "registers s" "now s + us", OF ir]
  show ?thesis
    by (simp add: handed_over_def async_usleep_def reg_read_def log_event_def)
qed

lemma hc_gain_control_cases:
  "hc_gain_control dev s =
     (let s1 = (if reg_read REVISION s AND R_LEGACY_FLAG \<noteq> 0
                then reg_and LEGACY_EMULATION 0x100 s else s)
      in if reg_read CONTROL s AND C_IR \<noteq> 0
         then map_option (\<lambda>s2. async_usleep dev 50000 (C_HCFS_SET C_HCFS_RESET s2))
                (hc_gain_control_smm_spin dev (reg_or COMMAND_STATUS CS_OCR s1))
         else if C_HCFS_GET (reg_read CONTROL s) = C_HCFS_OPERATIONAL then Some s1
         else if C_HCFS_GET (reg_read CONTROL s) = C_HCFS_RESET
         then Some (async_usleep dev 50000 s1)
         else Some (async_usleep dev 20000 (C_HCFS_SET C_HCFS_RESUME s1)))"
  by (auto simp add: hc_gain_control_def Let_def primitive_defs C_HCFS_OPERATIONAL_def
      C_HCFS_RESET_def split: option.splits)

lemma legacy_step_control:
  "reg_read CONTROL (if reg_read REVISION s AND R_LEGACY_FLAG \<noteq> 0
                then reg_and LEGACY_EMULATION 0x100 s else s) = reg_read CONTROL s"
  by (simp add: primitive_defs)

lemma hc_gain_control_post:
  assumes hcfs_kept: "\<And>t r. r CONTROL AND C_IR = 0 \<Longrightarrow>
                        C_HCFS_GET (dev t r CONTROL) = C_HCFS_GET (r CONTROL)"
    and ir_kept: "\<And>t r. r CONTROL AND C_IR = 0 \<Longrightarrow> dev t r CONTROL AND C_IR = 0"
    and ret: "hc_gain_control dev s = Some s'"
  shows "handed_over s'"
proof -
  let ?s1 = "if reg_read REVISION s AND R_LEGACY_FLAG \<noteq> 0
                then reg_and LEGACY_EMULATION 0x100 s else s"
  have keep: "handed_over x \<Longrightarrow> handed_over (async_usleep dev us x)" for x us
    by (rule sleep_keeps_handed_over) (simp_all add: hcfs_kept ir_kept)
  have c1: "reg_read CONTROL ?s1 = reg_read CONTROL s" by (rule legacy_step_control)
  show ?thesis
  proof (cases "reg_read CONTROL s AND C_IR \<noteq> 0")
    case True
    with ret obtain s2 where
      spin: "hc_gain_control_smm_spin dev (reg_or COMMAND_STATUS CS_OCR ?s1) = Some s2"
      and s': "s' = async_usleep dev 50000 (C_HCFS_SET C_HCFS_RESET s2)"
      unfolding hc_gain_control_cases Let_def by auto
    from smm_spin_Some[OF spin] have "reg_read CONTROL s2 AND C_IR = 0" by simp
    then have "handed_over (C_HCFS_SET C_HCFS_RESET s2)"
      by (simp add: handed_over_def C_HCFS_SET_get C_HCFS_SET_ir C_HCFS_RESET_def)
    from keep[OF this] show ?thesis unfolding s' .
  next
    case False
    then have ir: "reg_read CONTROL s AND C_IR = 0" by simp
    show ?thesis
    proof (cases "C_HCFS_GET (reg_read CONTROL s) = C_HCFS_OPERATIONAL")
      case True
      with ret ir have "s' = ?s1" unfolding hc_gain_control_cases Let_def by simp
      with True ir c1 show ?thesis by (simp add: handed_over_def)
    next
      case nop: False
      show ?thesis
      proof (cases "C_HCFS_GET (reg_read CONTROL s) = C_HCFS_RESET")
        case True
        with ret ir nop have s': "s' = async_usleep dev 50000 ?s1"
          unfolding hc_gain_control_cases Let_def by simp
        from True ir c1 have "handed_over ?s1" by (simp add: handed_over_def)
        from keep[OF this] show ?thesis unfolding s' .
      next
        case False
        with ret ir nop have s': "s' = async_usleep dev 20000 (C_HCFS_SET C_HCFS_RESUME ?s1)"
          unfolding hc_gain_control_cases Let_def by simp
        have "handed_over (C_HCFS_SET C_HCFS_RESUME ?s1)"
          using ir c1
          by (simp add: handed_over_def C_HCFS_SET_get C_HCFS_SET_ir C_HCFS_RESUME_def
              C_HCFS_MASK_def)
        from keep[OF this] show ?thesis unfolding s' .
      qed
    qed
  qed
qed

lemma CS_OCR_requested: "reg_read COMMAND_STATUS (reg_or COMMAND_STATUS CS_OCR s) AND CS_OCR \<noteq> 0"
proof -
  have "reg_read COMMAND_STATUS (reg_or COMMAND_STATUS CS_OCR s) AND CS_OCR = CS_OCR"
    by (simp add: primitive_defs word_or_and_absorb)
  then show ?thesis by (simp add: CS_OCR_def)
qed

lemma hc_gain_control_returns:
  assumes ev: "reg_read CONTROL s AND C_IR \<noteq> 0 \<Longrightarrow>
      (\<forall>t r. r COMMAND_STATUS AND CS_OCR \<noteq> 0 \<and> dev t r CONTROL AND C_IR \<noteq> 0
              \<longrightarrow> dev t r COMMAND_STATUS AND CS_OCR \<noteq> 0)
      \<and> (\<exists>T. \<forall>t r. T \<le> t \<and> r COMMAND_STATUS AND CS_OCR \<noteq> 0
              \<longrightarrow> dev t r CONTROL AND C_IR = 0)"
  shows "\<exists>s'. hc_gain_control dev s = Some s'"
proof (cases "reg_read CONTROL s AND C_IR \<noteq> 0")
  case True
  from ev[OF True] obtain T where
    persist: "\<And>t r. r COMMAND_STATUS AND CS_OCR \<noteq> 0 \<Longrightarrow> dev t r CONTROL AND C_IR \<noteq> 0
                      \<Longrightarrow> dev t r COMMAND_STATUS AND CS_OCR \<noteq> 0"
    and T: "\<And>t r. T \<le> t \<Longrightarrow> r COMMAND_STATUS AND CS_OCR \<noteq> 0 \<Longrightarrow> dev t r CONTROL AND C_IR = 0"
    by blast
  let ?s1 = "if reg_read REVISION s AND R_LEGACY_FLAG \<noteq> 0
                then reg_and LEGACY_EMULATION 0x100 s else s"
  have "\<exists>s2. hc_gain_control_smm_spin dev (reg_or COMMAND_STATUS CS_OCR ?s1) = Some s2"
    by (rule smm_spin_returns[of dev T]) (erule (1) persist, erule (1) T, rule CS_OCR_requested)
  then obtain s2 where "hc_gain_control_smm_spin dev (reg_or COMMAND_STATUS CS_OCR ?s1) = Some s2"
    by blast
  with True show ?thesis unfolding hc_gain_control_cases Let_def by simp
next
  case False
  then show ?thesis unfolding hc_gain_control_cases Let_def by simp
qed

text \<open>
  Claim C6. Take a controller that, once the interrupt-routing bit reads clear (the driver
  owns it), leaves the functional-state field to the driver and does not set the bit
  again; while the firmware owns the controller it may do to the control register what it
  likes. Then whenever \<^verbatim>\<open>hc_gain_control\<close> returns, the functional state is one of
  OPERATIONAL, RESET and RESUME and the interrupt-routing bit is clear. And it does return:
  at once when the interrupt-routing bit is clear at entry; and when it is set, provided
  that the ownership-change request, once set, stays pending until the firmware gives up
  the routing, and that from some time on the firmware answers a pending request by
  clearing the interrupt-routing bit.
\<close>

theorem hc_gain_control_handoff:
  assumes hcfs_kept: "\<And>t r. r CONTROL AND C_IR = 0 \<Longrightarrow>
                        C_HCFS_GET (dev t r CONTROL) = C_HCFS_GET (r CONTROL)"
    and ir_kept: "\<And>t r. r CONTROL AND C_IR = 0 \<Longrightarrow> dev t r CONTROL AND C_IR = 0"
  shows "(\<forall>s'. hc_gain_control dev instance = Some s' \<longrightarrow>
            C_HCFS_GET (reg_read CONTROL s') \<in> {C_HCFS_OPERATIONAL, C_HCFS_RESET, C_HCFS_RESUME}
            \<and> reg_read CONTROL s' AND C_IR = 0)
       \<and> ((reg_read CONTROL instance AND C_IR \<noteq> 0 \<longrightarrow>
              (\<forall>t r. r COMMAND_STATUS AND CS_OCR \<noteq> 0 \<and> dev t r CONTROL AND C_IR \<noteq> 0
                      \<longrightarrow> dev t r COMMAND_STATUS AND CS_OCR \<noteq> 0)
              \<and> (\<exists>T. \<forall>t r. T \<le> t \<and> r COMMAND_STATUS AND CS_OCR \<noteq> 0
                      \<longrightarrow> dev t r CONTROL AND C_IR = 0))
            \<longrightarrow> (\<exists>s'. hc_gain_control dev instance = Some s'))"
proof (intro conjI allI impI)
  fix s' assume ret: "hc_gain_control dev instance = Some s'"
  have "handed_over s'"
    by (rule hc_gain_control_post[where dev = dev and s = "instance"])
       (simp_all add: hcfs_kept ir_kept ret)
  then show "C_HCFS_GET (reg_read CONTROL s') \<in> {C_HCFS_OPERATIONAL, C_HCFS_RESET, C_HCFS_RESUME}"
    and "reg_read CONTROL s' AND C_IR = 0"
    by (simp_all add: handed_over_def)
next
  assume "reg_read CONTROL instance AND C_IR \<noteq> 0 \<longrightarrow>
              (\<forall>t r. r COMMAND_STATUS AND CS_OCR \<noteq> 0 \<and> dev t r CONTROL AND C_IR \<noteq> 0
                      \<longrightarrow> dev t r COMMAND_STATUS AND CS_OCR \<noteq> 0)
              \<and> (\<exists>T. \<forall>t r. T \<le> t \<and> r COMMAND_STATUS AND CS_OCR \<noteq> 0
                      \<longrightarrow> dev t r CONTROL AND C_IR = 0)"
  then show "\<exists>s'. hc_gain_control dev instance = Some s'"
    by (intro hc_gain_control_returns) blast
qed

lemma clear_bit_or_field:
  "k + m \<le> j \<Longrightarrow>
   (((x::u32) AND NOT (push_bit j 1)) OR push_bit k (mask m)) AND push_bit j 1 = 0"
  by (rule bit_word_eqI) (auto simp add: bit_simps)

lemma handover_clears_ir:
  "(((x::u32) AND NOT C_IR) OR push_bit C_HCFS_SHIFT C_HCFS_SUSPEND) AND C_IR = 0"
proof -
  have s: "C_HCFS_SUSPEND = mask 2" by (simp add: C_HCFS_SUSPEND_def mask_eq_exp_minus_1)
  show ?thesis
    unfolding s C_IR_def C_HCFS_SHIFT_def
    by (rule clear_bit_or_field) simp
qed

lemma example_firmware_hcfs:
  "r CONTROL AND C_IR = 0 \<Longrightarrow>
   C_HCFS_GET (example_firmware t r CONTROL) = C_HCFS_GET (r CONTROL)"
  by (simp add: example_firmware_def)

lemma example_firmware_ir_kept:
  "r CONTROL AND C_IR = 0 \<Longrightarrow> example_firmware t r CONTROL AND C_IR = 0"
  by (simp add: example_firmware_def)

lemma example_firmware_persist:
  "r COMMAND_STATUS AND CS_OCR \<noteq> 0 \<and> example_firmware t r CONTROL AND C_IR \<noteq> 0
     \<longrightarrow> example_firmware t r COMMAND_STATUS AND CS_OCR \<noteq> 0"
  by (simp add: example_firmware_def handover_clears_ir)

lemma example_firmware_hands_over:
  "3000 \<le> t \<and> r COMMAND_STATUS AND CS_OCR \<noteq> 0 \<longrightarrow> example_firmware t r CONTROL AND C_IR = 0"
  by (simp add: example_firmware_def handover_clears_ir)

theorem hc_gain_control_handoff_witness:
  "reg_read CONTROL example_smm_owned AND C_IR \<noteq> 0
   \<and> (\<exists>s'. hc_gain_control example_firmware example_smm_owned = Some s'
          \<and> C_HCFS_GET (reg_read CONTROL s')
               \<in> {C_HCFS_OPERATIONAL, C_HCFS_RESET, C_HCFS_RESUME}
          \<and> reg_read CONTROL s' AND C_IR = 0)
   \<and> C_HCFS_GET (reg_read CONTROL example_suspended) = C_HCFS_SUSPEND
   \<and> (\<exists>s'. hc_gain_control example_firmware example_suspended = Some s'
          \<and> C_HCFS_GET (reg_read CONTROL s')
               \<in> {C_HCFS_OPERATIONAL, C_HCFS_RESET, C_HCFS_RESUME}
          \<and> reg_read CONTROL s' AND C_IR = 0)"
proof -
  have ir: "reg_read CONTROL example_smm_owned AND C_IR \<noteq> 0"
    by (simp add: example_smm_owned_def reg_read_def C_IR_def)
  have su: "C_HCFS_GET (reg_read CONTROL example_suspended) = C_HCFS_SUSPEND"
    "reg_read CONTROL example_suspended AND C_IR = 0"
    by (simp_all add: example_suspended_def reg_read_def C_IR_def C_HCFS_GET_def
        C_HCFS_SHIFT_def C_HCFS_MASK_def C_HCFS_SUSPEND_def)
  have ev: "(\<forall>t r. r COMMAND_STATUS AND CS_OCR \<noteq> 0 \<and> example_firmware t r CONTROL AND C_IR \<noteq> 0
                      \<longrightarrow> example_firmware t r COMMAND_STATUS AND CS_OCR \<noteq> 0)
              \<and> (\<exists>T. \<forall>t r. T \<le> t \<and> r COMMAND_STATUS AND CS_OCR \<noteq> 0
                      \<longrightarrow> example_firmware t r CONTROL AND C_IR = 0)"
    using example_firmware_persist example_firmware_hands_over by blast
  from hc_gain_control_handoff[of example_firmware example_smm_owned,
      OF example_firmware_hcfs example_firmware_ir_kept] ev
  have 1: "\<exists>s'. hc_gain_control example_firmware example_smm_owned = Some s'
          \<and> C_HCFS_GET (reg_read CONTROL s')
               \<in> {C_HCFS_OPERATIONAL, C_HCFS_RESET, C_HCFS_RESUME}
          \<and> reg_read CONTROL s' AND C_IR = 0"
    by blast
  from hc_gain_control_handoff[of example_firmware example_suspended,
      OF example_firmware_hcfs example_firmware_ir_kept] su(2)
  have 2: "\<exists>s'. hc_gain_control example_firmware example_suspended = Some s'
          \<and> C_HCFS_GET (reg_read CONTROL s')
               \<in> {C_HCFS_OPERATIONAL, C_HCFS_RESET, C_HCFS_RESUME}
          \<and> reg_read CONTROL s' AND C_IR = 0"
    by blast
  from ir 1 su(1) 2 show ?thesis by blast
qed

subsection \<open>The guard and the enable-toggle protocol\<close>

lemma enqueue_hcd_ep_trace:
  "trace (enqueue_hcd_ep ep h s) = trace s @
     (case transfer_type ep of
        USB_TRANSFER_CONTROL \<Rightarrow>
          [Reg_Write CONTROL (reg_read CONTROL s AND NOT C_CLE),
           List_Add USB_TRANSFER_CONTROL h,
           Reg_Write CONTROL_CURRENT 0,
           Reg_Write CONTROL ((reg_read CONTROL s AND NOT C_CLE) OR C_CLE)]
      | USB_TRANSFER_BULK \<Rightarrow>
          [Reg_Write CONTROL (reg_read CONTROL s AND NOT C_BLE),
           List_Add USB_TRANSFER_BULK h,
           Reg_Write CONTROL ((reg_read CONTROL s AND NOT C_BLE) OR C_BLE)]
      | USB_TRANSFER_ISOCHRONOUS \<Rightarrow>
          [Reg_Write CONTROL (reg_read CONTROL s AND (NOT C_PLE AND NOT C_IE)),
           List_Add USB_TRANSFER_ISOCHRONOUS h,
           Reg_Write CONTROL ((reg_read CONTROL s AND (NOT C_PLE AND NOT C_IE)) OR (C_PLE OR C_IE))]
      | USB_TRANSFER_INTERRUPT \<Rightarrow>
          [Reg_Write CONTROL (reg_read CONTROL s AND (NOT C_PLE AND NOT C_IE)),
           List_Add USB_TRANSFER_INTERRUPT h,
           Reg_Write CONTROL ((reg_read CONTROL s AND (NOT C_PLE AND NOT C_IE)) OR (C_PLE OR C_IE))])"
  by (simp add: enqueue_hcd_ep_def primitive_defs endpoint_list_add_ep_def
      split: usb_transfer_type_t.splits)

lemma dequeue_hcd_ep_trace:
  "trace (dequeue_hcd_ep ep h s) = trace s @
     (case transfer_type ep of
        USB_TRANSFER_CONTROL \<Rightarrow>
          [Reg_Write CONTROL (reg_read CONTROL s AND NOT C_CLE),
           List_Remove USB_TRANSFER_CONTROL h,
           Reg_Write CONTROL_CURRENT 0,
           Reg_Write CONTROL ((reg_read CONTROL s AND NOT C_CLE) OR C_CLE)]
      | USB_TRANSFER_BULK \<Rightarrow>
          [Reg_Write CONTROL (reg_read CONTROL s AND NOT C_BLE),
           List_Remove USB_TRANSFER_BULK h,
           Reg_Write CONTROL ((reg_read CONTROL s AND NOT C_BLE) OR C_BLE)]
      | USB_TRANSFER_ISOCHRONOUS \<Rightarrow>
          [Reg_Write CONTROL (reg_read CONTROL s AND (NOT C_PLE AND NOT C_IE)),
           List_Remove USB_TRANSFER_ISOCHRONOUS h,
           Reg_Write CONTROL ((reg_read CONTROL s AND (NOT C_PLE AND NOT C_IE)) OR (C_PLE OR C_IE))]
      | USB_TRANSFER_INTERRUPT \<Rightarrow>
          [Reg_Write CONTROL (reg_read CONTROL s AND (NOT C_PLE AND NOT C_IE)),
           List_Remove USB_TRANSFER_INTERRUPT h,
           Reg_Write CONTROL ((reg_read CONTROL s AND (NOT C_PLE AND NOT C_IE)) OR (C_PLE OR C_IE))])"
  by (simp add: dequeue_hcd_ep_def primitive_defs endpoint_list_remove_ep_def
      split: usb_transfer_type_t.splits)

lemma enqueue_hcd_ep_registers:
  "r \<noteq> CONTROL \<Longrightarrow> r \<noteq> CONTROL_CURRENT \<Longrightarrow>
   registers (enqueue_hcd_ep ep h s) r = registers s r"
  by (simp add: enqueue_hcd_ep_def primitive_defs endpoint_list_add_ep_def
      split: usb_transfer_type_t.splits)

lemma hc_add_endpoint_trace:
  assumes "add_failure env = None"
  shows "trace (snd (hc_add_endpoint env s a e sp t d mps data_size interval)) = trace s @
     (case t of
        USB_TRANSFER_CONTROL \<Rightarrow>
          [Reg_Write CONTROL (reg_read CONTROL s AND NOT C_CLE),
           List_Add USB_TRANSFER_CONTROL (the (hcd_endpoint_assign_answer env)),
           Reg_Write CONTROL_CURRENT 0,
           Reg_Write CONTROL ((reg_read CONTROL s AND NOT C_CLE) OR C_CLE)]
      | USB_TRANSFER_BULK \<Rightarrow>
          [Reg_Write CONTROL (reg_read CONTROL s AND NOT C_BLE),
           List_Add USB_TRANSFER_BULK (the (hcd_endpoint_assign_answer env)),
           Reg_Write CONTROL ((reg_read CONTROL s AND NOT C_BLE) OR C_BLE)]
      | USB_TRANSFER_ISOCHRONOUS \<Rightarrow>
          [Reg_Write CONTROL (reg_read CONTROL s AND (NOT C_PLE AND NOT C_IE)),
           List_Add USB_TRANSFER_ISOCHRONOUS (the (hcd_endpoint_assign_answer env)),
           Reg_Write CONTROL ((reg_read CONTROL s AND (NOT C_PLE AND NOT C_IE)) OR (C_PLE OR C_IE))]
      | USB_TRANSFER_INTERRUPT \<Rightarrow>
          [Reg_Write CONTROL (reg_read CONTROL s AND (NOT C_PLE AND NOT C_IE)),
           List_Add USB_TRANSFER_INTERRUPT (the (hcd_endpoint_assign_answer env)),
           Reg_Write CONTROL ((reg_read CONTROL s AND (NOT C_PLE AND NOT C_IE)) OR (C_PLE OR C_IE))])"
  using assms
  by (auto simp add: add_failure_def hc_add_endpoint_def endpoint_get_def hcd_endpoint_assign_def
      usb_endpoint_manager_register_ep_def enqueue_hcd_ep_trace reg_read_def
      split: if_splits usb_transfer_type_t.splits)

lemma example_control: "reg_read CONTROL example_hc = 0xBC" "trace example_hc = []"
  "reg_read BULK_CURRENT example_hc = 0x1000" "guard example_hc = False"
  by (simp_all add: example_hc_def example_registers_def reg_read_def)

lemma example_add_ok_succeeds: "add_failure example_add_ok = None"
  "the (hcd_endpoint_assign_answer example_add_ok) = 200"
  by (simp_all add: add_failure_def example_add_ok_def EOK_def)

lemma enqueue_hcd_ep_control:
  "registers (enqueue_hcd_ep ep h s) CONTROL =
     (case transfer_type ep of
        USB_TRANSFER_CONTROL \<Rightarrow> (registers s CONTROL AND NOT C_CLE) OR C_CLE
      | USB_TRANSFER_BULK \<Rightarrow> (registers s CONTROL AND NOT C_BLE) OR C_BLE
      | USB_TRANSFER_ISOCHRONOUS \<Rightarrow>
          (registers s CONTROL AND (NOT C_PLE AND NOT C_IE)) OR (C_PLE OR C_IE)
      | USB_TRANSFER_INTERRUPT \<Rightarrow>
          (registers s CONTROL AND (NOT C_PLE AND NOT C_IE)) OR (C_PLE OR C_IE))"
  by (simp add: enqueue_hcd_ep_def primitive_defs endpoint_list_add_ep_def
      split: usb_transfer_type_t.splits)

lemma dequeue_hcd_ep_registers:
  "r \<noteq> CONTROL \<Longrightarrow> r \<noteq> CONTROL_CURRENT \<Longrightarrow>
   registers (dequeue_hcd_ep ep h s) r = registers s r"
  by (simp add: dequeue_hcd_ep_def primitive_defs endpoint_list_remove_ep_def
      split: usb_transfer_type_t.splits)

lemma unregister_ep_frame:
  "trace (snd (usb_endpoint_manager_unregister_ep a e d s)) = trace s"
  "registers (snd (usb_endpoint_manager_unregister_ep a e d s)) = registers s"
  by (simp_all add: usb_endpoint_manager_unregister_ep_def endpoint_destroy_def
      split: option.splits)

lemma hcd_endpoint_clear_frame:
  "trace (hcd_endpoint_clear ep s) = trace s"
  "registers (hcd_endpoint_clear ep s) = registers s"
  by (simp_all add: hcd_endpoint_clear_def split: option.splits)

lemma hc_remove_endpoint_trace:
  assumes g: "usb_endpoint_manager_get_ep s a e d = Some ep"
    and h: "hc_data ep = Some h"
  shows "trace (snd (hc_remove_endpoint s a e d)) =
     trace (dequeue_hcd_ep ep h (fibril_mutex_lock s)) @ [Mutex_Unlock]"
    and "r \<noteq> CONTROL \<Longrightarrow> r \<noteq> CONTROL_CURRENT \<Longrightarrow>
         registers (snd (hc_remove_endpoint s a e d)) r = registers s r"
  unfolding hc_remove_endpoint_present[OF g h]
  by (simp_all add: fibril_mutex_unlock_def log_event_def unregister_ep_frame
      hcd_endpoint_clear_frame dequeue_hcd_ep_registers fibril_mutex_lock_def)

text \<open>Every call of \<^verbatim>\<open>hc_remove_endpoint\<close> works under the guard: it locks first, unlocks
  last, and mutates the list and writes the control register in between.\<close>

lemma hc_remove_endpoint_guarded:
  "\<exists>new. trace (snd (hc_remove_endpoint s a e d)) = trace s @ new \<and> guarded False new"
proof (cases "usb_endpoint_manager_get_ep s a e d")
  case None
  then have "usb_endpoint_manager_get_ep (fibril_mutex_lock s) a e d = None"
    by (simp add: usb_endpoint_manager_get_ep_def fibril_mutex_lock_def log_event_def)
  then have "trace (snd (hc_remove_endpoint s a e d)) = trace s @ [Mutex_Lock, Mutex_Unlock]"
    by (simp add: hc_remove_endpoint_def Let_def fibril_mutex_lock_def fibril_mutex_unlock_def
        log_event_def)
  then show ?thesis by simp
next
  case (Some ep)
  then have g: "usb_endpoint_manager_get_ep (fibril_mutex_lock s) a e d = Some ep"
    by (simp add: usb_endpoint_manager_get_ep_def fibril_mutex_lock_def log_event_def)
  show ?thesis
  proof (cases "hc_data ep")
    case None
    with g have "trace (snd (hc_remove_endpoint s a e d)) = trace s @ [Mutex_Lock, Mutex_Unlock]"
      by (simp add: hc_remove_endpoint_def Let_def hcd_endpoint_get_def unregister_ep_frame
          fibril_mutex_unlock_def log_event_def split_beta)
         (simp add: fibril_mutex_lock_def log_event_def)
    then show ?thesis by simp
  next
    case (Some h)
    have "trace (snd (hc_remove_endpoint s a e d)) =
       trace s @ (Mutex_Lock # drop (Suc (length (trace s)))
                    (trace (dequeue_hcd_ep ep h (fibril_mutex_lock s))) @ [Mutex_Unlock])"
      unfolding hc_remove_endpoint_trace(1)[OF \<open>usb_endpoint_manager_get_ep s a e d = Some ep\<close> Some]
      by (simp add: dequeue_hcd_ep_trace fibril_mutex_lock_def log_event_def
          split: usb_transfer_type_t.splits)
    moreover have "guarded False (Mutex_Lock # drop (Suc (length (trace s)))
                    (trace (dequeue_hcd_ep ep h (fibril_mutex_lock s))) @ [Mutex_Unlock])"
      by (simp add: dequeue_hcd_ep_trace fibril_mutex_lock_def log_event_def
          split: usb_transfer_type_t.splits)
    ultimately show ?thesis by blast
  qed
qed

text \<open>
  Claim C1 says that every endpoint-list mutation and every write to the list-enable bits
  of the control register happens with the guard held, and that \<^verbatim>\<open>hc_add_endpoint\<close>
  acquires the guard before them and releases it after. \<^verbatim>\<open>hc_remove_endpoint\<close> does so
  (lemma \<open>hc_remove_endpoint_guarded\<close>), \<^verbatim>\<open>hc_add_endpoint\<close> does not: the successful
  addition of a control endpoint to an instance whose guard is free clears CLE, links the
  descriptor, zeroes control-current and sets CLE again without a single guard operation.
\<close>

theorem hc_add_endpoint_holds_no_guard:
  "fst (hc_add_endpoint example_add_ok example_hc 2 0 USB_SPEED_FULL USB_TRANSFER_CONTROL
          USB_DIRECTION_BOTH 64 0 0) = EOK
   \<and> trace (snd (hc_add_endpoint example_add_ok example_hc 2 0 USB_SPEED_FULL
          USB_TRANSFER_CONTROL USB_DIRECTION_BOTH 64 0 0))
       = [Reg_Write CONTROL 0xAC, List_Add USB_TRANSFER_CONTROL 200,
          Reg_Write CONTROL_CURRENT 0, Reg_Write CONTROL 0xBC]
   \<and> guarded False (trace (snd (hc_add_endpoint example_add_ok example_hc 2 0 USB_SPEED_FULL
          USB_TRANSFER_CONTROL USB_DIRECTION_BOTH 64 0 0))) = False"
proof -
  have t: "trace (snd (hc_add_endpoint example_add_ok example_hc 2 0 USB_SPEED_FULL
          USB_TRANSFER_CONTROL USB_DIRECTION_BOTH 64 0 0))
       = [Reg_Write CONTROL 0xAC, List_Add USB_TRANSFER_CONTROL 200,
          Reg_Write CONTROL_CURRENT 0, Reg_Write CONTROL 0xBC]"
    by (simp add: hc_add_endpoint_trace[OF example_add_ok_succeeds(1)] example_control
        example_add_ok_succeeds C_CLE_def)
  have r: "fst (hc_add_endpoint example_add_ok example_hc 2 0 USB_SPEED_FULL USB_TRANSFER_CONTROL
          USB_DIRECTION_BOTH 64 0 0) = EOK"
    using hc_add_endpoint_success[OF example_add_ok_succeeds(1), of example_hc 2 0 USB_SPEED_FULL
       USB_TRANSFER_CONTROL USB_DIRECTION_BOTH 64 0 0]
    by auto
  show ?thesis unfolding t using r by simp
qed

lemma example_add_ok_result:
  "hc_add_endpoint example_add_ok s a e sp t d mps data_size interval =
     (EOK, enqueue_hcd_ep
        \<lparr>ep_ptr = 100, ep_address = a, ep_endpoint = e, ep_direction = d, transfer_type = t,
         ep_speed = sp, max_packet_size = mps, hc_data = Some 200\<rparr> 200
        (s\<lparr>ep_heap := 100 # ep_heap s, hcd_heap := 200 # hcd_heap s,
           ep_manager := ep_manager s @
             [\<lparr>ep_ptr = 100, ep_address = a, ep_endpoint = e, ep_direction = d,
               transfer_type = t, ep_speed = sp, max_packet_size = mps,
               hc_data = Some 200\<rparr>]\<rparr>))"
  by (simp add: hc_add_endpoint_def example_add_ok_def endpoint_get_def hcd_endpoint_assign_def
      usb_endpoint_manager_register_ep_def EOK_def)

lemma example_bulk_added_facts:
  "trace example_bulk_added
     = [Reg_Write CONTROL 0x9C, List_Add USB_TRANSFER_BULK 200, Reg_Write CONTROL 0xBC]"
  "reg_read BULK_CURRENT example_bulk_added = 0x1000"
  "reg_read CONTROL example_bulk_added = 0xBC"
  "usb_endpoint_manager_get_ep example_bulk_added 3 1 USB_DIRECTION_IN =
     Some \<lparr>ep_ptr = 100, ep_address = 3, ep_endpoint = 1, ep_direction = USB_DIRECTION_IN,
           transfer_type = USB_TRANSFER_BULK, ep_speed = USB_SPEED_FULL, max_packet_size = 64,
           hc_data = Some 200\<rparr>"
     apply (simp add: example_bulk_added_def example_add_ok_result enqueue_hcd_ep_trace
        example_control reg_read_def C_BLE_def example_hc_def example_registers_def)
    apply (simp add: example_bulk_added_def example_add_ok_result reg_read_def
        enqueue_hcd_ep_registers example_hc_def example_registers_def)
   apply (simp add: example_bulk_added_def example_add_ok_result enqueue_hcd_ep_control
        reg_read_def C_BLE_def example_hc_def example_registers_def)
  apply (simp add: example_bulk_added_def example_add_ok_result usb_endpoint_manager_get_ep_def
        enqueue_hcd_ep_frame example_hc_def ep_matches_def)
  done

text \<open>
  Claim C2 says that insertion and removal follow the enable-toggle protocol and that, for
  control and bulk endpoints, the matching list-current register is zeroed between the
  mutation and the re-enable. The toggle is there for all four types, and control-current
  is zeroed for control endpoints (lemmas \<open>enqueue_hcd_ep_trace\<close> and
  \<open>dequeue_hcd_ep_trace\<close>); for a bulk endpoint bulk-current is not written at all, neither
  on insertion nor on removal: it holds \<open>0x1000\<close> before and after both.
\<close>

theorem bulk_current_not_zeroed:
  "trace example_bulk_added
     = [Reg_Write CONTROL 0x9C, List_Add USB_TRANSFER_BULK 200, Reg_Write CONTROL 0xBC]
   \<and> reg_read BULK_CURRENT example_bulk_added = 0x1000
   \<and> trace (snd (hc_remove_endpoint example_bulk_added 3 1 USB_DIRECTION_IN))
       = trace example_bulk_added
           @ [Mutex_Lock, Reg_Write CONTROL 0x9C, List_Remove USB_TRANSFER_BULK 200,
              Reg_Write CONTROL 0xBC, Mutex_Unlock]
   \<and> reg_read BULK_CURRENT (snd (hc_remove_endpoint example_bulk_added 3 1 USB_DIRECTION_IN))
       = 0x1000"
proof -
  note g = example_bulk_added_facts(4)
  have h: "hc_data \<lparr>ep_ptr = 100, ep_address = 3, ep_endpoint = 1, ep_direction = USB_DIRECTION_IN,
           transfer_type = USB_TRANSFER_BULK, ep_speed = USB_SPEED_FULL, max_packet_size = 64,
           hc_data = Some 200\<rparr> = Some 200" by simp
  have c: "reg_read CONTROL (fibril_mutex_lock example_bulk_added) = 0xBC"
    using example_bulk_added_facts(3)
    by (simp add: fibril_mutex_lock_def log_event_def reg_read_def)
  have t: "trace (snd (hc_remove_endpoint example_bulk_added 3 1 USB_DIRECTION_IN))
       = trace example_bulk_added
           @ [Mutex_Lock, Reg_Write CONTROL 0x9C, List_Remove USB_TRANSFER_BULK 200,
              Reg_Write CONTROL 0xBC, Mutex_Unlock]"
    unfolding hc_remove_endpoint_trace(1)[OF g h] dequeue_hcd_ep_trace c
    by (simp add: fibril_mutex_lock_def log_event_def C_BLE_def)
  have b: "reg_read BULK_CURRENT (snd (hc_remove_endpoint example_bulk_added 3 1 USB_DIRECTION_IN))
       = 0x1000"
    using hc_remove_endpoint_trace(2)[OF g h, of BULK_CURRENT] example_bulk_added_facts(2)
    by (simp add: reg_read_def)
  from example_bulk_added_facts(1,2) t b show ?thesis by blast
qed

end
